theory Spec2Isabelle
  imports Complex_Main "HOL-Library.Log_Nat"
begin

section \<open>The item store: four Express routes over the SQLite table \<open>items\<close>\<close>

text \<open>
  The table is created by
  \<^verbatim>\<open>CREATE TABLE IF NOT EXISTS items (id INTEGER PRIMARY KEY AUTOINCREMENT,
  name TEXT NOT NULL, category TEXT, unit TEXT, avgDailyUsage REAL, maxDailyUsage REAL,
  leadTime REAL, currentStock REAL)\<close>.
  A cell of a nullable column is \<open>None\<close> for SQL NULL and \<open>Some v\<close> otherwise; the column
  \<open>name\<close> is declared NOT NULL and therefore holds a plain value. The type \<open>'v\<close> stands for
  the non-NULL SQL values (integers, reals, texts) as the table stores them.
\<close>

record 'v items_row =
  row_id :: int
  row_name :: 'v
  row_category :: "'v option"
  row_unit :: "'v option"
  row_avgDailyUsage :: "'v option"
  row_maxDailyUsage :: "'v option"
  row_leadTime :: "'v option"
  row_currentStock :: "'v option"

text \<open>
  The database: the rows of \<open>items\<close> in rowid order, and the entry of \<open>sqlite_sequence\<close>
  that AUTOINCREMENT keeps for the table (the largest rowid ever assigned).
\<close>

record 'v db =
  items :: "'v items_row list"
  seq :: int

text \<open>
  A request body is a JSON object. A member is JSON \<open>null\<close> or some other JSON value. The
  driver binds every other value to a non-NULL SQL value, and SQLite converts that value
  with the type affinity of the column it is written to: a number written to a TEXT column
  is stored as its text (\<open>5\<close> as \<open>'5'\<close>); an integer, or a text that is a numeric literal,
  written to a REAL column is stored as a real (\<open>"12"\<close> as \<open>12.0\<close>); any other value is stored
  as it is bound. The columns \<open>name\<close>, \<open>category\<close> and \<open>unit\<close> have TEXT affinity, the four
  others REAL affinity.

  A non-null member is given here by the two values it is stored as: \<open>JVal t r\<close> is a member
  that is stored as \<open>t\<close> in a TEXT column and as \<open>r\<close> in a REAL column.
\<close>

datatype affinity = TEXT | REAL

datatype 'v json = JNull | JVal 'v 'v

text \<open>The storage classes of the non-NULL values of the table.\<close>

datatype sqlval = SqlInteger int | SqlReal rat | SqlText string

type_synonym 'v body = "string \<rightharpoonup> 'v json"

text \<open>
  The responses of the four routes. \<open>PostOk lastID body\<close> is
  \<^verbatim>\<open>{message: "success", data: {id: this.lastID, ...req.body}}\<close>,
  \<open>PutOk body changes\<close> is \<^verbatim>\<open>{message: "success", data: req.body, changes}\<close>,
  \<open>DeleteOk changes\<close> is \<^verbatim>\<open>{message: "deleted", changes}\<close> and \<open>Failure msg\<close> is the
  status-400 answer \<^verbatim>\<open>{error: err.message}\<close>.
\<close>

datatype 'v response =
    GetOk "'v items_row list"
  | PostOk int "'v body"
  | PutOk "'v body" nat
  | DeleteOk nat
  | Failure string

text \<open>
  Destructuring \<^verbatim>\<open>const { name, ... } = req.body\<close> gives \<open>undefined\<close> for an absent member;
  the driver leaves an \<open>undefined\<close> parameter unbound, which SQLite reads as NULL, and binds
  \<open>null\<close> as NULL. \<open>bind a p\<close> is what the member \<open>p\<close> puts into a column of affinity \<open>a\<close>.
\<close>

definition bind :: "affinity \<Rightarrow> 'v json option \<Rightarrow> 'v option" where
  "bind a p = (case p of
       None \<Rightarrow> None
     | Some JNull \<Rightarrow> None
     | Some (JVal t r) \<Rightarrow> Some (case a of TEXT \<Rightarrow> t | REAL \<Rightarrow> r))"

definition max_rowid :: int where
  "max_rowid = 2 ^ 63 - 1"

text \<open>
  AUTOINCREMENT: the new rowid is one more than the largest rowid that ever existed in the
  table; when that is the largest 64-bit integer the INSERT fails with SQLITE_FULL.
\<close>

definition next_rowid :: "'v db \<Rightarrow> int option" where
  "next_rowid s =
     (let m = fold max (map row_id (items s)) (max 0 (seq s))
      in if max_rowid \<le> m then None else Some (m + 1))"

definition get_items :: "'v db \<Rightarrow> 'v response \<times> 'v db" where
  "get_items s = (GetOk (items s), s)"

definition post_items :: "'v body \<Rightarrow> 'v db \<Rightarrow> 'v response \<times> 'v db" where
  "post_items body s =
     (case next_rowid s of
        None \<Rightarrow> (Failure ''SQLITE_FULL: database or disk is full'', s)
      | Some i \<Rightarrow>
          (case bind TEXT (body ''name'') of
             None \<Rightarrow> (Failure ''SQLITE_CONSTRAINT: NOT NULL constraint failed: items.name'', s)
           | Some n \<Rightarrow>
               (PostOk i body,
                s\<lparr>items := items s @
                     [\<lparr>row_id = i, row_name = n,
                       row_category = bind TEXT (body ''category''),
                       row_unit = bind TEXT (body ''unit''),
                       row_avgDailyUsage = bind REAL (body ''avgDailyUsage''),
                       row_maxDailyUsage = bind REAL (body ''maxDailyUsage''),
                       row_leadTime = bind REAL (body ''leadTime''),
                       row_currentStock = bind REAL (body ''currentStock'')\<rparr>],
                  seq := i\<rparr>)))"

text \<open>
  SQL \<open>column = COALESCE(?, column)\<close>: the parameter, converted with the affinity of the
  column, unless it is NULL; else the stored cell, which has that affinity already and is
  written back as it is.
\<close>

definition coalesce :: "'v option \<Rightarrow> 'v option \<Rightarrow> 'v option" where
  "coalesce p old = (case p of None \<Rightarrow> old | Some v \<Rightarrow> Some v)"

definition update_row :: "'v body \<Rightarrow> 'v items_row \<Rightarrow> 'v items_row" where
  "update_row body r =
     r\<lparr>row_name := (case bind TEXT (body ''name'') of None \<Rightarrow> row_name r | Some v \<Rightarrow> v),
       row_category := coalesce (bind TEXT (body ''category'')) (row_category r),
       row_unit := coalesce (bind TEXT (body ''unit'')) (row_unit r),
       row_avgDailyUsage := coalesce (bind REAL (body ''avgDailyUsage'')) (row_avgDailyUsage r),
       row_maxDailyUsage := coalesce (bind REAL (body ''maxDailyUsage'')) (row_maxDailyUsage r),
       row_leadTime := coalesce (bind REAL (body ''leadTime'')) (row_leadTime r),
       row_currentStock := coalesce (bind REAL (body ''currentStock'')) (row_currentStock r)\<rparr>"

text \<open>
  The route parameter \<open>:id\<close> is a text. In \<open>WHERE id = ?\<close> SQLite converts it with the
  INTEGER affinity of the column: \<open>Some n\<close> is a text that denotes the integer \<open>n\<close>, \<open>None\<close>
  a text that denotes no integer and so equals no rowid.
\<close>

definition where_id :: "int option \<Rightarrow> 'v items_row \<Rightarrow> bool" where
  "where_id p r = (p = Some (row_id r))"

definition put_items :: "int option \<Rightarrow> 'v body \<Rightarrow> 'v db \<Rightarrow> 'v response \<times> 'v db" where
  "put_items p body s =
     (PutOk body (length (filter (where_id p) (items s))),
      s\<lparr>items := map (\<lambda>r. if where_id p r then update_row body r else r) (items s)\<rparr>)"

definition delete_items :: "int option \<Rightarrow> 'v db \<Rightarrow> 'v response \<times> 'v db" where
  "delete_items p s =
     (DeleteOk (length (filter (where_id p) (items s))),
      s\<lparr>items := filter (\<lambda>r. \<not> where_id p r) (items s)\<rparr>)"

text \<open>A client session is a list of requests, served one after the other.\<close>

datatype 'v request =
    GET
  | POST "'v body"
  | PUT "int option" "'v body"
  | DELETE "int option"

fun serve :: "'v request \<Rightarrow> 'v db \<Rightarrow> 'v response \<times> 'v db" where
  "serve GET s = get_items s"
| "serve (POST body) s = post_items body s"
| "serve (PUT p body) s = put_items p body s"
| "serve (DELETE p) s = delete_items p s"

fun serve_all :: "'v request list \<Rightarrow> 'v db \<Rightarrow> 'v response list \<times> 'v db" where
  "serve_all [] s = ([], s)"
| "serve_all (q # qs) s =
     (let (a, s') = serve q s; (as, s'') = serve_all qs s' in (a # as, s''))"

text \<open>The ids handed out by the successful creations of a session, oldest first.\<close>

fun assigned_ids :: "'v response list \<Rightarrow> int list" where
  "assigned_ids [] = []"
| "assigned_ids (PostOk i b # as) = i # assigned_ids as"
| "assigned_ids (a # as) = assigned_ids as"

section \<open>The client view (App.tsx)\<close>

subsection \<open>JavaScript numbers\<close>

text \<open>
  A JavaScript \<open>number\<close> is an IEEE 754 binary64 value: NaN, an infinity, or a finite
  double, given here by its exact rational value. The two zeros \<open>-0\<close> and \<open>+0\<close> are both
  \<open>Fin 0\<close>; no operation used below tells them apart. The finite doubles are the values of
  \<open>fl\<close>; the operations are defined for every rational.
\<close>

datatype number = NaN | PInf | NInf | Fin rat

text \<open>The binade of a positive rational: \<open>ilog2 r\<close> is the integer \<open>e\<close> with \<open>2^e \<le> r < 2^(e + 1)\<close>.\<close>

definition ilog2 :: "rat \<Rightarrow> int" where
  "ilog2 r = (let (p, q) = quotient_of r; e = bitlen p - bitlen q
              in if 2 powi e \<le> r then e else e - 1)"

text \<open>Rounding to the nearest integer, a tie going to the even one.\<close>

definition rhe :: "rat \<Rightarrow> int" where
  "rhe q = (let n = \<lfloor>q\<rfloor>; d = q - of_int n
            in if d < 1 / 2 then n else if 1 / 2 < d then n + 1
               else if even n then n else n + 1)"

text \<open>The largest finite double.\<close>

definition max_double :: rat where
  "max_double = (2 ^ 53 - 1) * 2 ^ 971"

fun js_neg :: "number \<Rightarrow> number" where
  "js_neg NaN = NaN"
| "js_neg PInf = NInf"
| "js_neg NInf = PInf"
| "js_neg (Fin r) = Fin (- r)"

text \<open>
  Round to nearest, ties to even, of a positive rational: a significand of 53 bits in the
  binade of \<open>r\<close>, the exponent not below that of the subnormal doubles (\<open>- 1022\<close>). A result
  beyond the largest finite double is the infinity.
\<close>

definition nearest :: "rat \<Rightarrow> rat" where
  "nearest r = (let e = max (ilog2 r) (- 1022); u = 2 powi (e - 52)
                in of_int (rhe (r / u)) * u)"

definition fl_pos :: "rat \<Rightarrow> number" where
  "fl_pos r = (let v = nearest r in if max_double < v then PInf else Fin v)"

text \<open>The double that an exact result \<open>r\<close> is rounded to; rounding is symmetric in the sign.\<close>

definition fl :: "rat \<Rightarrow> number" where
  "fl r = (if r = 0 then Fin 0 else if 0 < r then fl_pos r else js_neg (fl_pos (- r)))"

text \<open>The operators \<open>+\<close>, \<open>-\<close>, \<open>*\<close> and \<open><=\<close> on numbers.\<close>

fun js_add :: "number \<Rightarrow> number \<Rightarrow> number" where
  "js_add NaN y = NaN"
| "js_add x NaN = NaN"
| "js_add (Fin a) (Fin b) = fl (a + b)"
| "js_add (Fin a) y = y"
| "js_add x (Fin b) = x"
| "js_add PInf PInf = PInf"
| "js_add NInf NInf = NInf"
| "js_add PInf NInf = NaN"
| "js_add NInf PInf = NaN"

definition js_sub :: "number \<Rightarrow> number \<Rightarrow> number" where
  "js_sub x y = js_add x (js_neg y)"

fun js_mul :: "number \<Rightarrow> number \<Rightarrow> number" where
  "js_mul NaN y = NaN"
| "js_mul x NaN = NaN"
| "js_mul (Fin a) (Fin b) = fl (a * b)"
| "js_mul (Fin a) y = (if a = 0 then NaN else if 0 < a then y else js_neg y)"
| "js_mul x (Fin b) = (if b = 0 then NaN else if 0 < b then x else js_neg x)"
| "js_mul PInf y = y"
| "js_mul NInf y = js_neg y"

fun js_le :: "number \<Rightarrow> number \<Rightarrow> bool" where
  "js_le NaN y = False"
| "js_le x NaN = False"
| "js_le NInf y = True"
| "js_le x PInf = True"
| "js_le (Fin a) (Fin b) = (a \<le> b)"
| "js_le x y = False"

text \<open>\<open>Math.max\<close> of two numbers: NaN when either is NaN.\<close>

definition Math_max :: "number \<Rightarrow> number \<Rightarrow> number" where
  "Math_max x y = (if x = NaN \<or> y = NaN then NaN else if js_le x y then y else x)"

text \<open>
  The text that \<open>x.toFixed(2)\<close> returns. For a finite \<open>x\<close> below \<open>10^21\<close> in magnitude it
  is a sign and the decimal digits of the integer \<open>n\<close> for which \<open>n / 100\<close> is nearest to
  the exact value of \<open>\<bar>x\<bar>\<close>, the larger \<open>n\<close> on a tie: \<open>Hundredths s n\<close>. For every other number
  it is the text of \<open>String(x)\<close>, which \<open>parseFloat\<close> reads back as \<open>x\<close>: \<open>Literal x\<close>.
  \<open>parseFloat\<close> of a decimal text is the double nearest to the decimal.
\<close>

datatype numeric_text = Hundredths bool nat | Literal number

definition toFixed2 :: "number \<Rightarrow> numeric_text" where
  "toFixed2 x = (case x of
       Fin r \<Rightarrow> if 10 ^ 21 \<le> \<bar>r\<bar> then Literal x
                else Hundredths (r < 0) (nat \<lfloor>\<bar>r\<bar> * 100 + 1 / 2\<rfloor>)
     | _ \<Rightarrow> Literal x)"

fun parseFloat :: "numeric_text \<Rightarrow> number" where
  "parseFloat (Hundredths s n) = (if s then js_neg (fl (of_nat n / 100)) else fl (of_nat n / 100))"
| "parseFloat (Literal x) = x"

subsection \<open>The inventory calculator\<close>

text \<open>
  The interface \<open>InventoryItem\<close>. Its numeric fields are typed \<open>number\<close>; the id, a rowid
  of the table, is kept as an integer.
\<close>

record InventoryItem =
  item_id :: int
  name :: string
  category :: string
  unit :: string
  avgDailyUsage :: number
  maxDailyUsage :: number
  leadTime :: number
  currentStock :: number

definition calculateSafetyStock :: "InventoryItem \<Rightarrow> number" where
  "calculateSafetyStock item =
     (let safetyStock = js_sub (js_mul (maxDailyUsage item) (leadTime item))
                               (js_mul (avgDailyUsage item) (leadTime item))
      in Math_max (Fin 0) (parseFloat (toFixed2 safetyStock)))"

definition calculateReorderPoint :: "InventoryItem \<Rightarrow> number" where
  "calculateReorderPoint item =
     (let safetyStock = calculateSafetyStock item;
          demandDuringLeadTime = js_mul (avgDailyUsage item) (leadTime item)
      in parseFloat (toFixed2 (js_add demandDuringLeadTime safetyStock)))"

text \<open>The object that \<open>getStatus\<close> returns, without its icon element.\<close>

record badge =
  status :: string
  color :: string

definition getStatus :: "InventoryItem \<Rightarrow> badge" where
  "getStatus item =
     (let reorderPoint = calculateReorderPoint item
      in if js_le (currentStock item) reorderPoint
         then \<lparr>status = ''Reorder Now'', color = ''text-red-600 bg-red-100''\<rparr>
         else \<lparr>status = ''OK'', color = ''text-green-600 bg-green-100''\<rparr>)"

subsection \<open>Editing a field\<close>

text \<open>
  \<^verbatim>\<open>handleUpdate(id, field, value)\<close>: the pair \<open>field\<close>, \<open>value\<close> of an edit, and the object
  spread \<^verbatim>\<open>{ ...item, [field]: value }\<close>.
\<close>

datatype edit =
    Set_id int
  | Set_name string
  | Set_category string
  | Set_unit string
  | Set_avgDailyUsage number
  | Set_maxDailyUsage number
  | Set_leadTime number
  | Set_currentStock number

fun spread :: "InventoryItem \<Rightarrow> edit \<Rightarrow> InventoryItem" where
  "spread item (Set_id v) = item\<lparr>item_id := v\<rparr>"
| "spread item (Set_name v) = item\<lparr>name := v\<rparr>"
| "spread item (Set_category v) = item\<lparr>category := v\<rparr>"
| "spread item (Set_unit v) = item\<lparr>unit := v\<rparr>"
| "spread item (Set_avgDailyUsage v) = item\<lparr>avgDailyUsage := v\<rparr>"
| "spread item (Set_maxDailyUsage v) = item\<lparr>maxDailyUsage := v\<rparr>"
| "spread item (Set_leadTime v) = item\<lparr>leadTime := v\<rparr>"
| "spread item (Set_currentStock v) = item\<lparr>currentStock := v\<rparr>"

text \<open>
  The promise returned by \<open>fetch\<close> rejects when the request cannot be made (network error)
  and resolves with a response for every HTTP status, the error statuses included.
\<close>

datatype fetch_outcome = Rejected | Resolved nat

text \<open>The list installed by the first \<open>setItems\<close> of \<open>handleUpdate\<close>.\<close>

definition optimistic :: "InventoryItem list \<Rightarrow> int \<Rightarrow> edit \<Rightarrow> InventoryItem list" where
  "optimistic items' id' e = map (\<lambda>item. if item_id item = id' then spread item e else item) items'"

text \<open>
  \<open>handleUpdate\<close>: the item list once the awaited \<open>fetch\<close> has settled. The \<open>catch\<close> block,
  which puts \<open>originalItems\<close> back, runs only when the promise rejects; the response of a
  resolved promise is not looked at.
\<close>

definition handleUpdate ::
    "InventoryItem list \<Rightarrow> int \<Rightarrow> edit \<Rightarrow> fetch_outcome \<Rightarrow> InventoryItem list" where
  "handleUpdate items' id' e outcome =
     (let originalItems = items'
      in case outcome of
           Resolved response \<Rightarrow> optimistic items' id' e
         | Rejected \<Rightarrow> originalItems)"

section \<open>Properties of the item store\<close>

lemma fold_max_ge_init: "(a::int) \<le> fold max xs a"
proof (induction xs arbitrary: a)
  case Nil
  show ?case by simp
next
  case (Cons y ys)
  have "a \<le> max y a" by simp
  also have "\<dots> \<le> fold max ys (max y a)" by (rule Cons.IH)
  finally show ?case by simp
qed

lemma fold_max_ge_elem: "x \<in> set xs \<Longrightarrow> (x::int) \<le> fold max xs a"
proof (induction xs arbitrary: a)
  case Nil
  then show ?case by simp
next
  case (Cons y ys)
  show ?case
  proof (cases "x = y")
    case True
    have "y \<le> max y a" by simp
    also have "\<dots> \<le> fold max ys (max y a)" by (rule fold_max_ge_init)
    finally show ?thesis using True by simp
  next
    case False
    with Cons show ?thesis by simp
  qed
qed

lemma next_rowid_fresh:
  assumes "next_rowid s = Some i"
  shows "seq s < i" and "0 < i" and "i \<le> max_rowid" and "\<forall>r \<in> set (items s). row_id r < i"
proof -
  let ?m = "fold max (map row_id (items s)) (max 0 (seq s))"
  from assms have i: "i = ?m + 1" and lt: "?m < max_rowid"
    by (auto simp: next_rowid_def Let_def split: if_splits)
  have "max 0 (seq s) \<le> ?m" by (rule fold_max_ge_init)
  then show "seq s < i" "0 < i" using i by auto
  show "i \<le> max_rowid" using i lt by simp
  show "\<forall>r \<in> set (items s). row_id r < i"
  proof
    fix r assume "r \<in> set (items s)"
    then have "row_id r \<le> ?m" by (intro fold_max_ge_elem) simp
    then show "row_id r < i" using i by simp
  qed
qed


lemma bind_absent_or_null:
  "bind a None = None" "bind a (Some JNull) = None"
  "bind TEXT (Some (JVal t r)) = Some t" "bind REAL (Some (JVal t r)) = Some r"
  by (simp_all add: bind_def)

lemma bind_eq_None_iff: "bind a p = None \<longleftrightarrow> p = None \<or> p = Some JNull"
  by (simp add: bind_def split: option.split json.split)

lemma post_items_named:
  assumes "next_rowid s = Some i" and "bind TEXT (body ''name'') = Some n"
  shows "post_items body s = (PostOk i body,
        s\<lparr>items := items s @
             [\<lparr>row_id = i, row_name = n,
               row_category = bind TEXT (body ''category''),
               row_unit = bind TEXT (body ''unit''),
               row_avgDailyUsage = bind REAL (body ''avgDailyUsage''),
               row_maxDailyUsage = bind REAL (body ''maxDailyUsage''),
               row_leadTime = bind REAL (body ''leadTime''),
               row_currentStock = bind REAL (body ''currentStock'')\<rparr>],
          seq := i\<rparr>)"
  unfolding post_items_def using assms by simp

lemma post_items_unnamed:
  assumes "next_rowid s = Some i" and "bind TEXT (body ''name'') = None"
  shows "post_items body s = (Failure ''SQLITE_CONSTRAINT: NOT NULL constraint failed: items.name'', s)"
  unfolding post_items_def using assms by simp

lemma post_items_full:
  assumes "next_rowid s = None"
  shows "post_items body s = (Failure ''SQLITE_FULL: database or disk is full'', s)"
  unfolding post_items_def using assms by simp


lemma serve_step:
  assumes "serve q s = (a, s')"
  shows "seq s \<le> seq s'" and "\<And>i b. a = PostOk i b \<Longrightarrow> seq s < i \<and> seq s' = i"
proof -
  have "seq s \<le> seq s' \<and> (\<forall>i b. a = PostOk i b \<longrightarrow> seq s < i \<and> seq s' = i)"
  proof (cases q)
    case GET
    with assms show ?thesis by (auto simp: get_items_def)
  next
    case (POST body)
    show ?thesis
    proof (cases "next_rowid s")
      case None
      with assms POST show ?thesis by (auto simp: post_items_full)
    next
      case (Some i)
      note fresh = next_rowid_fresh(1) [OF Some]
      show ?thesis
      proof (cases "bind TEXT (body ''name'')")
        case None
        with assms POST Some show ?thesis by (auto simp: post_items_unnamed)
      next
        case (Some n)
        with assms POST \<open>next_rowid s = Some i\<close> fresh show ?thesis
          by (auto simp: post_items_named)
      qed
    qed
  next
    case (PUT p body)
    with assms show ?thesis by (auto simp: put_items_def)
  next
    case (DELETE p)
    with assms show ?thesis by (auto simp: delete_items_def)
  qed
  then show "seq s \<le> seq s'" and "\<And>i b. a = PostOk i b \<Longrightarrow> seq s < i \<and> seq s' = i"
    by blast+
qed

lemma assigned_ids_Cons:
  "assigned_ids (a # as) = (case a of PostOk i b \<Rightarrow> i # assigned_ids as | _ \<Rightarrow> assigned_ids as)"
  by (cases a) simp_all

lemma serve_all_ids:
  "serve_all qs s = (as, s') \<Longrightarrow>
     seq s \<le> seq s' \<and> sorted_wrt (<) (assigned_ids as) \<and>
     (\<forall>i \<in> set (assigned_ids as). seq s < i \<and> i \<le> seq s')"
proof (induction qs arbitrary: s as s')
  case Nil
  then show ?case by simp
next
  case (Cons q qs)
  obtain a s1 where q: "serve q s = (a, s1)" by (cases "serve q s")
  obtain bs s2 where qs: "serve_all qs s1 = (bs, s2)" by (cases "serve_all qs s1")
  from Cons.prems q qs have as: "as = a # bs" and s': "s' = s2" by simp_all
  note IH = Cons.IH [OF qs]
  note st = serve_step [OF q]
  show ?case
  proof (cases a)
    case (PostOk i b)
    with st(2) have "seq s < i" "seq s1 = i" by auto
    with IH as s' PostOk show ?thesis by auto
  qed (use IH st(1) as s' in \<open>auto\<close>)
qed

lemma update_row_sel:
  "row_id (update_row body r) = row_id r"
  "row_name (update_row body r) = (case bind TEXT (body ''name'') of None \<Rightarrow> row_name r | Some v \<Rightarrow> v)"
  "row_category (update_row body r) = coalesce (bind TEXT (body ''category'')) (row_category r)"
  "row_unit (update_row body r) = coalesce (bind TEXT (body ''unit'')) (row_unit r)"
  "row_avgDailyUsage (update_row body r) = coalesce (bind REAL (body ''avgDailyUsage'')) (row_avgDailyUsage r)"
  "row_maxDailyUsage (update_row body r) = coalesce (bind REAL (body ''maxDailyUsage'')) (row_maxDailyUsage r)"
  "row_leadTime (update_row body r) = coalesce (bind REAL (body ''leadTime'')) (row_leadTime r)"
  "row_currentStock (update_row body r) = coalesce (bind REAL (body ''currentStock'')) (row_currentStock r)"
  by (simp_all add: update_row_def)

lemma coalesce_simps:
  "coalesce None old = old" "coalesce (Some v) old = Some v"
  by (simp_all add: coalesce_def)

lemma coalesce_keeps_value: "old \<noteq> None \<Longrightarrow> coalesce p old \<noteq> None"
  by (cases p) (simp_all add: coalesce_def)

lemma put_items_state:
  "put_items p body s = (a, s') \<Longrightarrow>
     a = PutOk body (length (filter (where_id p) (items s))) \<and> seq s' = seq s \<and>
     items s' = map (\<lambda>r. if where_id p r then update_row body r else r) (items s)"
  by (auto simp: put_items_def)

lemma filter_where_id_absent:
  assumes "\<forall>r \<in> set rows. p \<noteq> Some (row_id r)"
  shows "filter (where_id p) rows = []"
    and "filter (\<lambda>r. \<not> where_id p r) rows = rows"
    and "map (\<lambda>r. if where_id p r then f r else r) rows = rows"
  using assms by (induction rows) (simp_all add: where_id_def)

text \<open>
  C5, as stated, fails: a body without \<open>name\<close> is not created. The column is NOT NULL, the
  INSERT is refused and the route answers with status 400.
\<close>
theorem post_items_missing_name_counterexample:
  "post_items [''category'' \<mapsto> JVal (SqlText ''Meat'') (SqlText ''Meat''), ''currentStock'' \<mapsto> JVal (SqlText ''5'') (SqlReal 5)]
     \<lparr>items = [], seq = 0\<rparr>
   = (Failure ''SQLITE_CONSTRAINT: NOT NULL constraint failed: items.name'', \<lparr>items = [], seq = 0\<rparr>)"
  by (simp add: post_items_def next_rowid_def max_rowid_def bind_def)

text \<open>
  C5, amended: while the id counter is below the largest 64-bit integer,
  \<open>POST /api/items\<close> succeeds for every request body whose \<open>name\<close> is present and not null,
  and no other field is required: each of the other six fields that is absent (or null) is
  stored as NULL, and each field that is present is stored as SQLite converts it for its
  column (its TEXT form in \<open>name\<close>, \<open>category\<close>, \<open>unit\<close>, its REAL form in the four others).
  A body whose \<open>name\<close> is absent or null is answered with the 400 error
  \<open>NOT NULL constraint failed: items.name\<close> and nothing is stored.
\<close>
theorem post_items_needs_only_name:
  assumes "next_rowid s = Some i"
  shows "(\<forall>t r. body ''name'' = Some (JVal t r) \<longrightarrow>
            post_items body s =
              (PostOk i body,
               s\<lparr>items := items s @
                    [\<lparr>row_id = i, row_name = t,
                      row_category = bind TEXT (body ''category''),
                      row_unit = bind TEXT (body ''unit''),
                      row_avgDailyUsage = bind REAL (body ''avgDailyUsage''),
                      row_maxDailyUsage = bind REAL (body ''maxDailyUsage''),
                      row_leadTime = bind REAL (body ''leadTime''),
                      row_currentStock = bind REAL (body ''currentStock'')\<rparr>],
                 seq := i\<rparr>))
       \<and> (\<forall>k a. body k = None \<or> body k = Some JNull \<longrightarrow> bind a (body k) = None)
       \<and> (\<forall>k t r. body k = Some (JVal t r) \<longrightarrow>
            bind TEXT (body k) = Some t \<and> bind REAL (body k) = Some r)
       \<and> (body ''name'' = None \<or> body ''name'' = Some JNull \<longrightarrow>
            post_items body s =
              (Failure ''SQLITE_CONSTRAINT: NOT NULL constraint failed: items.name'', s))"
proof (intro conjI allI impI)
  fix t r assume "body ''name'' = Some (JVal t r)"
  then have "bind TEXT (body ''name'') = Some t" by (simp add: bind_absent_or_null)
  then show "post_items body s =
              (PostOk i body,
               s\<lparr>items := items s @
                    [\<lparr>row_id = i, row_name = t,
                      row_category = bind TEXT (body ''category''),
                      row_unit = bind TEXT (body ''unit''),
                      row_avgDailyUsage = bind REAL (body ''avgDailyUsage''),
                      row_maxDailyUsage = bind REAL (body ''maxDailyUsage''),
                      row_leadTime = bind REAL (body ''leadTime''),
                      row_currentStock = bind REAL (body ''currentStock'')\<rparr>],
                 seq := i\<rparr>)"
    by (rule post_items_named [OF assms])
next
  fix k a assume "body k = None \<or> body k = Some JNull"
  then show "bind a (body k) = None" by (simp add: bind_eq_None_iff)
next
  fix k t r assume "body k = Some (JVal t r)"
  then show "bind TEXT (body k) = Some t" by (simp add: bind_absent_or_null)
next
  fix k t r assume "body k = Some (JVal t r)"
  then show "bind REAL (body k) = Some r" by (simp add: bind_absent_or_null)
next
  assume "body ''name'' = None \<or> body ''name'' = Some JNull"
  then have "bind TEXT (body ''name'') = None" by (simp add: bind_eq_None_iff)
  then show "post_items body s =
      (Failure ''SQLITE_CONSTRAINT: NOT NULL constraint failed: items.name'', s)"
    by (rule post_items_unnamed [OF assms])
qed

theorem post_items_needs_only_name_witness:
  "next_rowid \<lparr>items = ([] :: sqlval items_row list), seq = 0\<rparr> = Some 1 \<and>
   post_items [''name'' \<mapsto> JVal (SqlText ''5'') (SqlReal 5),
               ''currentStock'' \<mapsto> JVal (SqlText ''12'') (SqlReal 12)]
     \<lparr>items = [], seq = 0\<rparr> =
     (PostOk 1 [''name'' \<mapsto> JVal (SqlText ''5'') (SqlReal 5),
                ''currentStock'' \<mapsto> JVal (SqlText ''12'') (SqlReal 12)],
      \<lparr>items = [\<lparr>row_id = 1, row_name = SqlText ''5'', row_category = None, row_unit = None,
                  row_avgDailyUsage = None, row_maxDailyUsage = None, row_leadTime = None,
                  row_currentStock = Some (SqlReal 12)\<rparr>],
       seq = 1\<rparr>) \<and>
   post_items [''name'' \<mapsto> (JNull :: sqlval json)] \<lparr>items = [], seq = 0\<rparr> =
     (Failure ''SQLITE_CONSTRAINT: NOT NULL constraint failed: items.name'', \<lparr>items = [], seq = 0\<rparr>)"
proof -
  have nr: "next_rowid \<lparr>items = ([] :: sqlval items_row list), seq = 0\<rparr> = Some 1"
    by (simp add: next_rowid_def max_rowid_def)
  show ?thesis
    using nr
      post_items_needs_only_name [OF nr, of "[''name'' \<mapsto> JVal (SqlText ''5'') (SqlReal 5),
               ''currentStock'' \<mapsto> JVal (SqlText ''12'') (SqlReal 12)]"]
      post_items_needs_only_name [OF nr, of "[''name'' \<mapsto> JNull :: sqlval json]"]
    by (simp add: bind_def)
qed

text \<open>
  C6: for every stored table and every body, \<open>PUT /api/items/:id\<close> keeps the number of rows,
  the id counter and every id; a row with another id is unchanged; and in every row each
  field that is absent from the body keeps its stored value. In particular a body that
  holds only \<open>currentStock\<close> leaves name, category, unit, avgDailyUsage, maxDailyUsage and
  leadTime as they were.
\<close>
theorem put_items_changes_only_present_fields:
  assumes "put_items p body s = (a, s')"
  shows "length (items s') = length (items s) \<and> seq s' = seq s \<and>
         (\<forall>k < length (items s).
            row_id (items s' ! k) = row_id (items s ! k) \<and>
            (p \<noteq> Some (row_id (items s ! k)) \<longrightarrow> items s' ! k = items s ! k) \<and>
            (body ''name'' = None \<longrightarrow> row_name (items s' ! k) = row_name (items s ! k)) \<and>
            (body ''category'' = None \<longrightarrow> row_category (items s' ! k) = row_category (items s ! k)) \<and>
            (body ''unit'' = None \<longrightarrow> row_unit (items s' ! k) = row_unit (items s ! k)) \<and>
            (body ''avgDailyUsage'' = None \<longrightarrow>
               row_avgDailyUsage (items s' ! k) = row_avgDailyUsage (items s ! k)) \<and>
            (body ''maxDailyUsage'' = None \<longrightarrow>
               row_maxDailyUsage (items s' ! k) = row_maxDailyUsage (items s ! k)) \<and>
            (body ''leadTime'' = None \<longrightarrow> row_leadTime (items s' ! k) = row_leadTime (items s ! k)) \<and>
            (body ''currentStock'' = None \<longrightarrow>
               row_currentStock (items s' ! k) = row_currentStock (items s ! k)))"
proof -
  note st = put_items_state [OF assms]
  have len: "length (items s') = length (items s)" and sq: "seq s' = seq s"
    using st by simp_all
  have rows: "\<forall>k < length (items s).
      items s' ! k = (if where_id p (items s ! k) then update_row body (items s ! k) else items s ! k)"
    using st by simp
  show ?thesis
  proof (intro conjI allI impI len sq)
    fix k assume k: "k < length (items s)"
    let ?r = "items s ! k"
    from rows k have r':
      "items s' ! k = (if where_id p ?r then update_row body ?r else ?r)" by blast
    show "row_id (items s' ! k) = row_id ?r"
      by (simp add: r' update_row_sel)
    show "items s' ! k = ?r" if "p \<noteq> Some (row_id ?r)"
      using that by (simp add: r' where_id_def)
    show "row_name (items s' ! k) = row_name ?r" if "body ''name'' = None"
      by (simp add: r' update_row_sel that bind_absent_or_null)
    show "row_category (items s' ! k) = row_category ?r" if "body ''category'' = None"
      by (simp add: r' update_row_sel that bind_absent_or_null coalesce_simps)
    show "row_unit (items s' ! k) = row_unit ?r" if "body ''unit'' = None"
      by (simp add: r' update_row_sel that bind_absent_or_null coalesce_simps)
    show "row_avgDailyUsage (items s' ! k) = row_avgDailyUsage ?r" if "body ''avgDailyUsage'' = None"
      by (simp add: r' update_row_sel that bind_absent_or_null coalesce_simps)
    show "row_maxDailyUsage (items s' ! k) = row_maxDailyUsage ?r" if "body ''maxDailyUsage'' = None"
      by (simp add: r' update_row_sel that bind_absent_or_null coalesce_simps)
    show "row_leadTime (items s' ! k) = row_leadTime ?r" if "body ''leadTime'' = None"
      by (simp add: r' update_row_sel that bind_absent_or_null coalesce_simps)
    show "row_currentStock (items s' ! k) = row_currentStock ?r" if "body ''currentStock'' = None"
      by (simp add: r' update_row_sel that bind_absent_or_null coalesce_simps)
  qed
qed


theorem put_items_changes_only_present_fields_witness:
  "put_items (Some 1) [''currentStock'' \<mapsto> JVal (SqlText ''7'') (SqlReal 7)]
     \<lparr>items = [\<lparr>row_id = 1, row_name = SqlText ''Beef'', row_category = Some (SqlText ''Meat''),
                 row_unit = Some (SqlText ''kg''), row_avgDailyUsage = Some (SqlReal 5),
                 row_maxDailyUsage = Some (SqlReal 10), row_leadTime = Some (SqlReal 2),
                 row_currentStock = Some (SqlReal 15)\<rparr>,
               \<lparr>row_id = 2, row_name = SqlText ''Tofu'', row_category = None,
                 row_unit = None, row_avgDailyUsage = None,
                 row_maxDailyUsage = None, row_leadTime = None,
                 row_currentStock = Some (SqlReal 3)\<rparr>],
      seq = 2\<rparr>
   = (PutOk [''currentStock'' \<mapsto> JVal (SqlText ''7'') (SqlReal 7)] 1,
      \<lparr>items = [\<lparr>row_id = 1, row_name = SqlText ''Beef'', row_category = Some (SqlText ''Meat''),
                 row_unit = Some (SqlText ''kg''), row_avgDailyUsage = Some (SqlReal 5),
                 row_maxDailyUsage = Some (SqlReal 10), row_leadTime = Some (SqlReal 2),
                 row_currentStock = Some (SqlReal 7)\<rparr>,
               \<lparr>row_id = 2, row_name = SqlText ''Tofu'', row_category = None,
                 row_unit = None, row_avgDailyUsage = None,
                 row_maxDailyUsage = None, row_leadTime = None,
                 row_currentStock = Some (SqlReal 3)\<rparr>],
      seq = 2\<rparr>)
   \<and> length (items (snd (put_items (Some 1) [''currentStock'' \<mapsto> JVal (SqlText ''7'') (SqlReal 7)]
     \<lparr>items = [\<lparr>row_id = 1, row_name = SqlText ''Beef'', row_category = Some (SqlText ''Meat''),
                 row_unit = Some (SqlText ''kg''), row_avgDailyUsage = Some (SqlReal 5),
                 row_maxDailyUsage = Some (SqlReal 10), row_leadTime = Some (SqlReal 2),
                 row_currentStock = Some (SqlReal 15)\<rparr>,
               \<lparr>row_id = 2, row_name = SqlText ''Tofu'', row_category = None,
                 row_unit = None, row_avgDailyUsage = None,
                 row_maxDailyUsage = None, row_leadTime = None,
                 row_currentStock = Some (SqlReal 3)\<rparr>],
      seq = 2\<rparr>))) = 2"
proof -
  let ?b = "[''currentStock'' \<mapsto> JVal (SqlText ''7'') (SqlReal 7)]"
  let ?s = "\<lparr>items = [\<lparr>row_id = 1, row_name = SqlText ''Beef'', row_category = Some (SqlText ''Meat''),
                 row_unit = Some (SqlText ''kg''), row_avgDailyUsage = Some (SqlReal 5),
                 row_maxDailyUsage = Some (SqlReal 10), row_leadTime = Some (SqlReal 2),
                 row_currentStock = Some (SqlReal 15)\<rparr>,
               \<lparr>row_id = 2, row_name = SqlText ''Tofu'', row_category = None,
                 row_unit = None, row_avgDailyUsage = None,
                 row_maxDailyUsage = None, row_leadTime = None,
                 row_currentStock = Some (SqlReal 3)\<rparr>],
      seq = 2\<rparr>"
  have run: "put_items (Some 1) ?b ?s = (fst (put_items (Some 1) ?b ?s), snd (put_items (Some 1) ?b ?s))"
    by simp
  have len: "length (items (snd (put_items (Some 1) ?b ?s))) = length (items ?s)"
    using put_items_changes_only_present_fields [OF run] by (rule conjunct1)
  have val: "put_items (Some 1) ?b ?s = (PutOk ?b 1,
      \<lparr>items = [\<lparr>row_id = 1, row_name = SqlText ''Beef'', row_category = Some (SqlText ''Meat''),
                 row_unit = Some (SqlText ''kg''), row_avgDailyUsage = Some (SqlReal 5),
                 row_maxDailyUsage = Some (SqlReal 10), row_leadTime = Some (SqlReal 2),
                 row_currentStock = Some (SqlReal 7)\<rparr>,
               \<lparr>row_id = 2, row_name = SqlText ''Tofu'', row_category = None,
                 row_unit = None, row_avgDailyUsage = None,
                 row_maxDailyUsage = None, row_leadTime = None,
                 row_currentStock = Some (SqlReal 3)\<rparr>],
      seq = 2\<rparr>)"
    by (simp add: put_items_def where_id_def update_row_def bind_def coalesce_def)
  show ?thesis
    using len val by simp
qed

text \<open>
  C7: when no row has the requested id, \<open>PUT /api/items/:id\<close> answers success with
  \<open>changes = 0\<close> and \<open>DELETE /api/items/:id\<close> answers \<open>deleted\<close> with \<open>changes = 0\<close>, and both
  leave the database as it was.
\<close>
theorem absent_id_changes_nothing:
  assumes "\<forall>r \<in> set (items s). p \<noteq> Some (row_id r)"
  shows "put_items p body s = (PutOk body 0, s) \<and> delete_items p s = (DeleteOk 0, s)"
  using filter_where_id_absent [OF assms]
  by (simp add: put_items_def delete_items_def)

theorem absent_id_changes_nothing_witness:
  "put_items (Some 2) [''currentStock'' \<mapsto> JVal (SqlText ''7'') (SqlReal 7)]
     \<lparr>items = [\<lparr>row_id = 1, row_name = SqlText ''Beef'', row_category = None,
                 row_unit = None, row_avgDailyUsage = None, row_maxDailyUsage = None,
                 row_leadTime = None, row_currentStock = Some (SqlReal 15)\<rparr>], seq = 1\<rparr>
   = (PutOk [''currentStock'' \<mapsto> JVal (SqlText ''7'') (SqlReal 7)] 0,
      \<lparr>items = [\<lparr>row_id = 1, row_name = SqlText ''Beef'', row_category = None,
                 row_unit = None, row_avgDailyUsage = None, row_maxDailyUsage = None,
                 row_leadTime = None, row_currentStock = Some (SqlReal 15)\<rparr>], seq = 1\<rparr>) \<and>
   delete_items (Some 2)
     \<lparr>items = [\<lparr>row_id = 1, row_name = SqlText ''Beef'', row_category = None,
                 row_unit = None, row_avgDailyUsage = None, row_maxDailyUsage = None,
                 row_leadTime = None, row_currentStock = Some (SqlReal 15)\<rparr>], seq = 1\<rparr>
   = (DeleteOk 0,
      \<lparr>items = [\<lparr>row_id = 1, row_name = SqlText ''Beef'', row_category = None,
                 row_unit = None, row_avgDailyUsage = None, row_maxDailyUsage = None,
                 row_leadTime = None, row_currentStock = Some (SqlReal 15)\<rparr>], seq = 1\<rparr>)"
proof -
  let ?s = "\<lparr>items = [\<lparr>row_id = 1, row_name = SqlText ''Beef'', row_category = None,
                 row_unit = None, row_avgDailyUsage = None, row_maxDailyUsage = None,
                 row_leadTime = None, row_currentStock = Some (SqlReal 15)\<rparr>], seq = 1\<rparr>"
  have h: "\<forall>r \<in> set (items ?s). Some 2 \<noteq> Some (row_id r)" by simp
  show ?thesis
    using absent_id_changes_nothing [OF h, of "[''currentStock'' \<mapsto> JVal (SqlText ''7'') (SqlReal 7)]"]
    by simp
qed

text \<open>
  C9: in every session of requests (creations, deletions, updates and listings, in any
  order and from any database) the ids handed out by the creations are strictly increasing,
  hence pairwise distinct, and larger than the id counter at the start; and a creation
  followed by a listing shows a row with the new id and the fields of the body, each as
  SQLite converts it for its column, the new id being different from every id in the table
  before.
\<close>
theorem created_ids_never_reused:
  "(serve_all qs s = (as, s') \<longrightarrow>
      distinct (assigned_ids as) \<and> sorted_wrt (<) (assigned_ids as) \<and>
      (\<forall>i \<in> set (assigned_ids as). seq s < i)) \<and>
   (serve_all [POST body, GET] s = ([PostOk i b, GetOk rows], s1) \<longrightarrow>
      (\<forall>r \<in> set (items s). row_id r \<noteq> i) \<and> seq s < i \<and>
      (\<exists>r \<in> set rows. row_id r = i \<and> (\<exists>t q. body ''name'' = Some (JVal t q) \<and> row_name r = t) \<and>
         row_category r = bind TEXT (body ''category'') \<and> row_unit r = bind TEXT (body ''unit'') \<and>
         row_avgDailyUsage r = bind REAL (body ''avgDailyUsage'') \<and>
         row_maxDailyUsage r = bind REAL (body ''maxDailyUsage'') \<and>
         row_leadTime r = bind REAL (body ''leadTime'') \<and>
         row_currentStock r = bind REAL (body ''currentStock'')))"
proof (intro conjI impI)
  assume run: "serve_all qs s = (as, s')"
  note ids = serve_all_ids [OF run]
  from ids show "sorted_wrt (<) (assigned_ids as)" by blast
  then show "distinct (assigned_ids as)" by (simp add: strict_sorted_iff)
  from ids show "\<forall>i \<in> set (assigned_ids as). seq s < i" by blast
next
  assume run: "serve_all [POST body, GET] s = ([PostOk i b, GetOk rows], s1)"
  obtain a s2 where post: "post_items body s = (a, s2)" by (cases "post_items body s")
  from run post have a: "a = PostOk i b" and rows: "rows = items s2"
    by (auto simp: get_items_def)
  have ok: "\<exists>n. next_rowid s = Some i \<and> bind TEXT (body ''name'') = Some n"
  proof (cases "next_rowid s")
    case None
    with post a show ?thesis by (simp add: post_items_full)
  next
    case (Some j)
    show ?thesis
    proof (cases "bind TEXT (body ''name'')")
      case None
      with post a Some show ?thesis by (simp add: post_items_unnamed)
    next
      case (Some n)
      with post a \<open>next_rowid s = Some j\<close> show ?thesis by (simp add: post_items_named)
    qed
  qed
  then obtain n where nr: "next_rowid s = Some i" and nm: "bind TEXT (body ''name'') = Some n" by blast
  from nm have name: "\<exists>t q. body ''name'' = Some (JVal t q) \<and> n = t"
    by (simp add: bind_def split: option.splits json.splits)
  note fresh = next_rowid_fresh [OF nr]
  from fresh(4) show "\<forall>r \<in> set (items s). row_id r \<noteq> i" by auto
  from fresh(1) show "seq s < i" .
  let ?r = "\<lparr>row_id = i, row_name = n,
               row_category = bind TEXT (body ''category''),
               row_unit = bind TEXT (body ''unit''),
               row_avgDailyUsage = bind REAL (body ''avgDailyUsage''),
               row_maxDailyUsage = bind REAL (body ''maxDailyUsage''),
               row_leadTime = bind REAL (body ''leadTime''),
               row_currentStock = bind REAL (body ''currentStock'')\<rparr>"
  from post post_items_named [of s i body n, OF nr nm] have "items s2 = items s @ [?r]" by auto
  then have "?r \<in> set rows" using rows by simp
  then show "\<exists>r \<in> set rows. row_id r = i \<and> (\<exists>t q. body ''name'' = Some (JVal t q) \<and> row_name r = t) \<and>
         row_category r = bind TEXT (body ''category'') \<and> row_unit r = bind TEXT (body ''unit'') \<and>
         row_avgDailyUsage r = bind REAL (body ''avgDailyUsage'') \<and>
         row_maxDailyUsage r = bind REAL (body ''maxDailyUsage'') \<and>
         row_leadTime r = bind REAL (body ''leadTime'') \<and>
         row_currentStock r = bind REAL (body ''currentStock'')"
    using name by (intro bexI [of _ ?r]) simp_all
qed


theorem created_ids_never_reused_witness:
  "serve_all [POST [''name'' \<mapsto> JVal (SqlText ''Tofu'') (SqlText ''Tofu'')], DELETE (Some 1),
              POST [''name'' \<mapsto> JVal (SqlText ''Beef'') (SqlText ''Beef'')], GET]
     \<lparr>items = [], seq = 0\<rparr>
   = ([PostOk 1 [''name'' \<mapsto> JVal (SqlText ''Tofu'') (SqlText ''Tofu'')], DeleteOk 1,
       PostOk 2 [''name'' \<mapsto> JVal (SqlText ''Beef'') (SqlText ''Beef'')],
       GetOk [\<lparr>row_id = 2, row_name = SqlText ''Beef'', row_category = None, row_unit = None,
                row_avgDailyUsage = None, row_maxDailyUsage = None, row_leadTime = None,
                row_currentStock = None\<rparr>]],
      \<lparr>items = [\<lparr>row_id = 2, row_name = SqlText ''Beef'', row_category = None, row_unit = None,
                row_avgDailyUsage = None, row_maxDailyUsage = None, row_leadTime = None,
                row_currentStock = None\<rparr>], seq = 2\<rparr>)
   \<and> distinct (assigned_ids [PostOk 1 [''name'' \<mapsto> JVal (SqlText ''Tofu'') (SqlText ''Tofu'')], DeleteOk 1,
       PostOk 2 [''name'' \<mapsto> JVal (SqlText ''Beef'') (SqlText ''Beef'')],
       GetOk [\<lparr>row_id = 2, row_name = SqlText ''Beef'', row_category = None, row_unit = None,
                row_avgDailyUsage = None, row_maxDailyUsage = None, row_leadTime = None,
                row_currentStock = None\<rparr>]])
   \<and> serve_all [POST [''name'' \<mapsto> JVal (SqlText ''5'') (SqlReal 5),
                     ''currentStock'' \<mapsto> JVal (SqlText ''12'') (SqlReal 12)], GET]
        \<lparr>items = [], seq = 0\<rparr>
   = ([PostOk 1 [''name'' \<mapsto> JVal (SqlText ''5'') (SqlReal 5),
                 ''currentStock'' \<mapsto> JVal (SqlText ''12'') (SqlReal 12)],
       GetOk [\<lparr>row_id = 1, row_name = SqlText ''5'', row_category = None, row_unit = None,
                row_avgDailyUsage = None, row_maxDailyUsage = None, row_leadTime = None,
                row_currentStock = Some (SqlReal 12)\<rparr>]],
      \<lparr>items = [\<lparr>row_id = 1, row_name = SqlText ''5'', row_category = None, row_unit = None,
                row_avgDailyUsage = None, row_maxDailyUsage = None, row_leadTime = None,
                row_currentStock = Some (SqlReal 12)\<rparr>], seq = 1\<rparr>)
   \<and> (\<exists>r \<in> set [\<lparr>row_id = 1, row_name = SqlText ''5'', row_category = None, row_unit = None,
                row_avgDailyUsage = None, row_maxDailyUsage = None, row_leadTime = None,
                row_currentStock = Some (SqlReal 12)\<rparr>]. row_id r = 1)"
proof -
  let ?tofu = "[''name'' \<mapsto> JVal (SqlText ''Tofu'') (SqlText ''Tofu'')]"
  let ?beef = "[''name'' \<mapsto> JVal (SqlText ''Beef'') (SqlText ''Beef'')]"
  let ?five = "[''name'' \<mapsto> JVal (SqlText ''5'') (SqlReal 5),
                ''currentStock'' \<mapsto> JVal (SqlText ''12'') (SqlReal 12)]"
  let ?s0 = "\<lparr>items = ([] :: sqlval items_row list), seq = 0\<rparr>"
  let ?r1 = "\<lparr>row_id = 1, row_name = SqlText ''Tofu'', row_category = None, row_unit = None,
                row_avgDailyUsage = None, row_maxDailyUsage = None, row_leadTime = None,
                row_currentStock = None\<rparr>"
  let ?r2 = "\<lparr>row_id = 2, row_name = SqlText ''Beef'', row_category = None, row_unit = None,
                row_avgDailyUsage = None, row_maxDailyUsage = None, row_leadTime = None,
                row_currentStock = None\<rparr>"
  let ?r5 = "\<lparr>row_id = 1, row_name = SqlText ''5'', row_category = None, row_unit = None,
                row_avgDailyUsage = None, row_maxDailyUsage = None, row_leadTime = None,
                row_currentStock = Some (SqlReal 12)\<rparr>"
  have p1: "post_items ?tofu ?s0 = (PostOk 1 ?tofu, \<lparr>items = [?r1], seq = 1\<rparr>)"
    by (simp add: post_items_def next_rowid_def max_rowid_def bind_def)
  have d1: "delete_items (Some 1) \<lparr>items = [?r1], seq = 1\<rparr> = (DeleteOk 1, \<lparr>items = [], seq = 1\<rparr>)"
    by (simp add: delete_items_def where_id_def)
  have p2: "post_items ?beef \<lparr>items = ([] :: sqlval items_row list), seq = 1\<rparr>
      = (PostOk 2 ?beef, \<lparr>items = [?r2], seq = 2\<rparr>)"
    by (simp add: post_items_def next_rowid_def max_rowid_def bind_def)
  have p5: "post_items ?five ?s0 = (PostOk 1 ?five, \<lparr>items = [?r5], seq = 1\<rparr>)"
    by (simp add: post_items_def next_rowid_def max_rowid_def bind_def)
  have long: "serve_all [POST ?tofu, DELETE (Some 1), POST ?beef, GET] ?s0
      = ([PostOk 1 ?tofu, DeleteOk 1, PostOk 2 ?beef, GetOk [?r2]], \<lparr>items = [?r2], seq = 2\<rparr>)"
    by (simp add: p1 d1 p2 get_items_def)
  have short: "serve_all [POST ?five, GET] ?s0
      = ([PostOk 1 ?five, GetOk [?r5]], \<lparr>items = [?r5], seq = 1\<rparr>)"
    by (simp add: p5 get_items_def)
  from created_ids_never_reused
         [of "[POST ?tofu, DELETE (Some 1), POST ?beef, GET]" ?s0
             "[PostOk 1 ?tofu, DeleteOk 1, PostOk 2 ?beef, GetOk [?r2]]" "\<lparr>items = [?r2], seq = 2\<rparr>"
             ?five 1 ?five "[?r5]" "\<lparr>items = [?r5], seq = 1\<rparr>"]
       long short
  have "distinct (assigned_ids [PostOk 1 ?tofu, DeleteOk 1, PostOk 2 ?beef, GetOk [?r2]])"
    and "\<exists>r \<in> set [?r5]. row_id r = 1"
    by blast+
  with long short show ?thesis by blast
qed

text \<open>
  C10: in \<open>PUT /api/items/:id\<close> a field that the body sets to \<open>null\<close> keeps its stored value
  in every row, and whatever the body, a cell that holds a value before the update holds
  one after it: the update never stores NULL over a value. (The column \<open>name\<close> cannot hold
  NULL at all.)
\<close>
theorem put_items_null_keeps_stored_value:
  assumes "put_items p body s = (a, s')" and "k < length (items s)"
  shows "(body ''name'' = Some JNull \<longrightarrow> row_name (items s' ! k) = row_name (items s ! k)) \<and>
         (body ''category'' = Some JNull \<longrightarrow> row_category (items s' ! k) = row_category (items s ! k)) \<and>
         (body ''unit'' = Some JNull \<longrightarrow> row_unit (items s' ! k) = row_unit (items s ! k)) \<and>
         (body ''avgDailyUsage'' = Some JNull \<longrightarrow>
            row_avgDailyUsage (items s' ! k) = row_avgDailyUsage (items s ! k)) \<and>
         (body ''maxDailyUsage'' = Some JNull \<longrightarrow>
            row_maxDailyUsage (items s' ! k) = row_maxDailyUsage (items s ! k)) \<and>
         (body ''leadTime'' = Some JNull \<longrightarrow> row_leadTime (items s' ! k) = row_leadTime (items s ! k)) \<and>
         (body ''currentStock'' = Some JNull \<longrightarrow>
            row_currentStock (items s' ! k) = row_currentStock (items s ! k)) \<and>
         (row_category (items s ! k) \<noteq> None \<longrightarrow> row_category (items s' ! k) \<noteq> None) \<and>
         (row_unit (items s ! k) \<noteq> None \<longrightarrow> row_unit (items s' ! k) \<noteq> None) \<and>
         (row_avgDailyUsage (items s ! k) \<noteq> None \<longrightarrow> row_avgDailyUsage (items s' ! k) \<noteq> None) \<and>
         (row_maxDailyUsage (items s ! k) \<noteq> None \<longrightarrow> row_maxDailyUsage (items s' ! k) \<noteq> None) \<and>
         (row_leadTime (items s ! k) \<noteq> None \<longrightarrow> row_leadTime (items s' ! k) \<noteq> None) \<and>
         (row_currentStock (items s ! k) \<noteq> None \<longrightarrow> row_currentStock (items s' ! k) \<noteq> None)"
proof -
  let ?r = "items s ! k"
  from put_items_state [OF assms(1)] assms(2) have r':
    "items s' ! k = (if where_id p ?r then update_row body ?r else ?r)" by simp
  show ?thesis
  proof (intro conjI impI)
    show "row_name (items s' ! k) = row_name ?r" if "body ''name'' = Some JNull"
      by (simp add: r' update_row_sel that bind_absent_or_null)
    show "row_category (items s' ! k) = row_category ?r" if "body ''category'' = Some JNull"
      by (simp add: r' update_row_sel that bind_absent_or_null coalesce_simps)
    show "row_unit (items s' ! k) = row_unit ?r" if "body ''unit'' = Some JNull"
      by (simp add: r' update_row_sel that bind_absent_or_null coalesce_simps)
    show "row_avgDailyUsage (items s' ! k) = row_avgDailyUsage ?r" if "body ''avgDailyUsage'' = Some JNull"
      by (simp add: r' update_row_sel that bind_absent_or_null coalesce_simps)
    show "row_maxDailyUsage (items s' ! k) = row_maxDailyUsage ?r" if "body ''maxDailyUsage'' = Some JNull"
      by (simp add: r' update_row_sel that bind_absent_or_null coalesce_simps)
    show "row_leadTime (items s' ! k) = row_leadTime ?r" if "body ''leadTime'' = Some JNull"
      by (simp add: r' update_row_sel that bind_absent_or_null coalesce_simps)
    show "row_currentStock (items s' ! k) = row_currentStock ?r" if "body ''currentStock'' = Some JNull"
      by (simp add: r' update_row_sel that bind_absent_or_null coalesce_simps)
    show "row_category (items s' ! k) \<noteq> None" if "row_category ?r \<noteq> None"
      using coalesce_keeps_value [OF that] that by (simp add: r' update_row_sel)
    show "row_unit (items s' ! k) \<noteq> None" if "row_unit ?r \<noteq> None"
      using coalesce_keeps_value [OF that] that by (simp add: r' update_row_sel)
    show "row_avgDailyUsage (items s' ! k) \<noteq> None" if "row_avgDailyUsage ?r \<noteq> None"
      using coalesce_keeps_value [OF that] that by (simp add: r' update_row_sel)
    show "row_maxDailyUsage (items s' ! k) \<noteq> None" if "row_maxDailyUsage ?r \<noteq> None"
      using coalesce_keeps_value [OF that] that by (simp add: r' update_row_sel)
    show "row_leadTime (items s' ! k) \<noteq> None" if "row_leadTime ?r \<noteq> None"
      using coalesce_keeps_value [OF that] that by (simp add: r' update_row_sel)
    show "row_currentStock (items s' ! k) \<noteq> None" if "row_currentStock ?r \<noteq> None"
      using coalesce_keeps_value [OF that] that by (simp add: r' update_row_sel)
  qed
qed

theorem put_items_null_keeps_stored_value_witness:
  "put_items (Some 1) [''unit'' \<mapsto> JNull, ''currentStock'' \<mapsto> JNull]
     \<lparr>items = [\<lparr>row_id = 1, row_name = SqlText ''Beef'', row_category = None,
                 row_unit = Some (SqlText ''kg''), row_avgDailyUsage = None, row_maxDailyUsage = None,
                 row_leadTime = None, row_currentStock = Some (SqlReal 15)\<rparr>], seq = 1\<rparr>
   = (PutOk [''unit'' \<mapsto> JNull, ''currentStock'' \<mapsto> JNull] 1,
      \<lparr>items = [\<lparr>row_id = 1, row_name = SqlText ''Beef'', row_category = None,
                 row_unit = Some (SqlText ''kg''), row_avgDailyUsage = None, row_maxDailyUsage = None,
                 row_leadTime = None, row_currentStock = Some (SqlReal 15)\<rparr>], seq = 1\<rparr>)
   \<and> row_currentStock (items (snd (put_items (Some 1) [''unit'' \<mapsto> JNull, ''currentStock'' \<mapsto> JNull]
     \<lparr>items = [\<lparr>row_id = 1, row_name = SqlText ''Beef'', row_category = None,
                 row_unit = Some (SqlText ''kg''), row_avgDailyUsage = None, row_maxDailyUsage = None,
                 row_leadTime = None, row_currentStock = Some (SqlReal 15)\<rparr>], seq = 1\<rparr>)) ! 0)
     = Some (SqlReal 15)"
proof -
  let ?b = "[''unit'' \<mapsto> JNull, ''currentStock'' \<mapsto> (JNull :: sqlval json)]"
  let ?s = "\<lparr>items = [\<lparr>row_id = 1, row_name = SqlText ''Beef'', row_category = None,
                 row_unit = Some (SqlText ''kg''), row_avgDailyUsage = None, row_maxDailyUsage = None,
                 row_leadTime = None, row_currentStock = Some (SqlReal 15)\<rparr>], seq = 1\<rparr>"
  have run: "put_items (Some 1) ?b ?s = (fst (put_items (Some 1) ?b ?s), snd (put_items (Some 1) ?b ?s))"
    by simp
  have k: "0 < length (items ?s)" by simp
  have b: "?b ''currentStock'' = Some JNull" by simp
  have "row_currentStock (items (snd (put_items (Some 1) ?b ?s)) ! 0) = row_currentStock (items ?s ! 0)"
    using put_items_null_keeps_stored_value [OF run k] b by blast
  moreover have "put_items (Some 1) ?b ?s = (PutOk ?b 1, ?s)"
    by (simp add: put_items_def where_id_def update_row_def bind_def coalesce_def)
  ultimately show ?thesis by simp
qed


section \<open>Rounding to a double\<close>

lemma two_powi_pos: "0 < (2::rat) powi e"
  by simp

lemma bitlen_rat_bounds:
  assumes "0 < p"
  shows "(2::rat) powi (bitlen p - 1) \<le> of_int p" and "of_int p < (2::rat) powi bitlen p"
proof -
  from bitlen_bounds [OF assms]
  have lo: "2 ^ nat (bitlen p - 1) \<le> p" and hi: "p < 2 ^ nat (bitlen p)" by simp_all
  have b1: "1 \<le> bitlen p" using assms bitlen_eq_zero_iff [of p] bitlen_nonneg [of p] by linarith
  have "(2::rat) powi (bitlen p - 1) = 2 ^ nat (bitlen p - 1)"
    using b1 by (simp add: power_int_nonneg_exp)
  also have "\<dots> = of_int (2 ^ nat (bitlen p - 1))" by simp
  also have "\<dots> \<le> of_int p" using lo by (simp only: of_int_le_iff)
  finally show "(2::rat) powi (bitlen p - 1) \<le> of_int p" .
  have "of_int p < (of_int (2 ^ nat (bitlen p)) :: rat)" using hi by (simp only: of_int_less_iff)
  also have "\<dots> = 2 ^ nat (bitlen p)" by simp
  also have "\<dots> = 2 powi bitlen p" using b1 by (simp add: power_int_nonneg_exp)
  finally show "of_int p < (2::rat) powi bitlen p" .
qed

lemma ilog2_bounds:
  assumes "0 < r"
  shows "2 powi ilog2 r \<le> r" and "r < 2 powi (ilog2 r + 1)"
proof -
  obtain p q where pq: "quotient_of r = (p, q)" by (cases "quotient_of r")
  have q: "0 < q" by (rule quotient_of_denom_pos [OF pq])
  have r: "r = of_int p / of_int q" by (rule quotient_of_div [OF pq])
  have p: "0 < p" using assms q r by (simp add: zero_less_divide_iff)
  let ?e = "bitlen p - bitlen q"
  note bp = bitlen_rat_bounds [OF p] and bq = bitlen_rat_bounds [OF q]
  have qpos: "0 < (of_int q :: rat)" using q by simp
  have up: "r < (2::rat) powi (?e + 1)"
  proof -
    have "r * of_int q = of_int p" using r qpos by simp
    also have "\<dots> < 2 powi bitlen p" by (rule bp(2))
    also have "\<dots> = 2 powi (?e + 1) * 2 powi (bitlen q - 1)"
      by (simp flip: power_int_add)
    also have "\<dots> \<le> 2 powi (?e + 1) * of_int q"
      by (intro mult_left_mono bq(1)) simp
    finally show ?thesis using qpos by simp
  qed
  have lo: "(2::rat) powi (?e - 1) \<le> r"
  proof -
    have "(2::rat) powi (?e - 1) * of_int q \<le> 2 powi (?e - 1) * 2 powi bitlen q"
      by (intro mult_left_mono less_imp_le [OF bq(2)]) simp
    also have "\<dots> = 2 powi (bitlen p - 1)" by (simp flip: power_int_add)
    also have "\<dots> \<le> of_int p" by (rule bp(1))
    also have "\<dots> = r * of_int q" using r qpos by simp
    finally show ?thesis using qpos by simp
  qed
  show "2 powi ilog2 r \<le> r" using lo by (simp add: ilog2_def pq Let_def)
  show "r < 2 powi (ilog2 r + 1)" using up by (auto simp: ilog2_def pq Let_def not_le)
qed

lemma ilog2_eqI:
  assumes "2 powi e \<le> r" and "r < 2 powi (e + 1)"
  shows "ilog2 r = e"
proof -
  have r: "0 < r" using assms(1) two_powi_pos [of e] by linarith
  note b = ilog2_bounds [OF r]
  have "(2::rat) powi ilog2 r < 2 powi (e + 1)" using b(1) assms(2) by linarith
  then have 1: "ilog2 r < e + 1"
    by (metis not_less power_int_increasing one_le_numeral leD)
  have "(2::rat) powi e < 2 powi (ilog2 r + 1)" using b(2) assms(1) by linarith
  then have 2: "e < ilog2 r + 1"
    by (metis not_less power_int_increasing one_le_numeral leD)
  from 1 2 show ?thesis by simp
qed

lemma ilog2_mono:
  assumes "0 < r" and "r \<le> s"
  shows "ilog2 r \<le> ilog2 s"
proof -
  have s: "0 < s" using assms by simp
  have "(2::rat) powi ilog2 r < 2 powi (ilog2 s + 1)"
    using ilog2_bounds(1) [OF assms(1)] ilog2_bounds(2) [OF s] assms(2) by linarith
  then have "ilog2 r < ilog2 s + 1"
    by (metis not_less power_int_increasing one_le_numeral leD)
  then show ?thesis by simp
qed

lemma rhe_of_int: "rhe (of_int n) = n"
  by (simp add: rhe_def)

lemma rhe_cases:
  "rhe q = \<lfloor>q\<rfloor> \<and> q - of_int \<lfloor>q\<rfloor> \<le> 1 / 2 \<or> rhe q = \<lfloor>q\<rfloor> + 1 \<and> 1 / 2 \<le> q - of_int \<lfloor>q\<rfloor>"
  by (auto simp: rhe_def Let_def)

lemma rhe_ge_floor: "\<lfloor>q\<rfloor> \<le> rhe q"
  using rhe_cases [of q] by auto

lemma rhe_le_floor: "rhe q \<le> \<lfloor>q\<rfloor> + 1"
  using rhe_cases [of q] by auto

lemma rhe_mono:
  assumes "q \<le> q'"
  shows "rhe q \<le> rhe q'"
proof (cases "\<lfloor>q\<rfloor> = \<lfloor>q'\<rfloor>")
  case True
  have d: "q - of_int \<lfloor>q\<rfloor> \<le> q' - of_int \<lfloor>q'\<rfloor>" using assms True by simp
  show ?thesis
    using d True by (auto simp: rhe_def Let_def)
next
  case False
  with floor_mono [OF assms] have "\<lfloor>q\<rfloor> + 1 \<le> \<lfloor>q'\<rfloor>" by simp
  with rhe_le_floor [of q] rhe_ge_floor [of q'] show ?thesis by linarith
qed

lemma rhe_le_int: "q \<le> of_int k \<Longrightarrow> rhe q \<le> k"
  using rhe_mono [of q "of_int k"] by (simp add: rhe_of_int)

lemma rhe_ge_int: "of_int k \<le> q \<Longrightarrow> k \<le> rhe q"
  using rhe_mono [of "of_int k" q] by (simp add: rhe_of_int)

lemma two_powi_split:
  "(2::rat) powi e = 2 ^ 52 * 2 powi (e - 52)"
  "(2::rat) powi (e + 1) = 2 ^ 53 * 2 powi (e - 52)"
proof -
  have "(2::rat) powi 52 * 2 powi (e - 52) = 2 powi (52 + (e - 52))"
    by (rule power_int_add [symmetric]) simp
  then show "(2::rat) powi e = 2 ^ 52 * 2 powi (e - 52)" by simp
  have "(2::rat) powi 53 * 2 powi (e - 52) = 2 powi (53 + (e - 52))"
    by (rule power_int_add [symmetric]) simp
  moreover have "53 + (e - 52) = e + 1" by simp
  ultimately have "(2::rat) powi 53 * 2 powi (e - 52) = 2 powi (e + 1)" by (simp only:)
  then show "(2::rat) powi (e + 1) = 2 ^ 53 * 2 powi (e - 52)" by simp
qed

lemma nearest_nonneg:
  assumes "0 \<le> r"
  shows "0 \<le> nearest r"
proof -
  let ?u = "(2::rat) powi (max (ilog2 r) (- 1022) - 52)"
  have "0 \<le> r / ?u" using assms by simp
  then have "of_int 0 \<le> r / ?u" by simp
  then have "0 \<le> rhe (r / ?u)" by (rule rhe_ge_int)
  then show ?thesis by (simp add: nearest_def Let_def)
qed

lemma nearest_mono:
  assumes "0 < r" and "r \<le> s"
  shows "nearest r \<le> nearest s"
proof -
  have s: "0 < s" using assms by simp
  define er where "er = max (ilog2 r) (- 1022)"
  define es where "es = max (ilog2 s) (- 1022)"
  define ur where "ur = (2::rat) powi (er - 52)"
  define us where "us = (2::rat) powi (es - 52)"
  have ur: "0 < ur" and us: "0 < us" by (simp_all add: ur_def us_def)
  have nr: "nearest r = of_int (rhe (r / ur)) * ur"
    by (simp add: nearest_def Let_def ur_def er_def)
  have ns: "nearest s = of_int (rhe (s / us)) * us"
    by (simp add: nearest_def Let_def us_def es_def)
  have le: "er \<le> es" using ilog2_mono [OF assms] unfolding er_def es_def by linarith
  show ?thesis
  proof (cases "er = es")
    case True
    then have u: "ur = us" by (simp add: ur_def us_def)
    have "r / ur \<le> s / us" using assms(2) us unfolding u by (simp add: divide_right_mono)
    then have "rhe (r / ur) \<le> rhe (s / us)" by (rule rhe_mono)
    then have "(of_int (rhe (r / ur)) :: rat) \<le> of_int (rhe (s / us))" by simp
    then show ?thesis unfolding nr ns u using us by (intro mult_right_mono) simp_all
  next
    case False
    with le have lt: "er < es" by simp
    then have es: "es = ilog2 s" unfolding er_def es_def by linarith
    have ilr: "ilog2 r + 1 \<le> er + 1" unfolding er_def by linarith
    have "r < 2 powi (ilog2 r + 1)" by (rule ilog2_bounds(2) [OF assms(1)])
    also have "\<dots> \<le> 2 powi (er + 1)" using ilr by (intro power_int_increasing) simp_all
    finally have r_hi: "r < 2 powi (er + 1)" .
    have split_r: "(2::rat) powi (er + 1) = 2 ^ 53 * ur"
      unfolding ur_def by (rule two_powi_split(2))
    have "r / ur \<le> of_int (2 ^ 53)"
      using r_hi ur unfolding split_r by (simp add: pos_divide_le_eq)
    then have "rhe (r / ur) \<le> 2 ^ 53" by (rule rhe_le_int)
    then have "(of_int (rhe (r / ur)) :: rat) \<le> of_int (2 ^ 53)" by (simp only: of_int_le_iff)
    then have "nearest r \<le> of_int (2 ^ 53) * ur"
      unfolding nr using ur by (intro mult_right_mono) simp_all
    also have "\<dots> = 2 powi (er + 1)" using split_r by simp
    also have "\<dots> \<le> 2 powi es" using lt by (intro power_int_increasing) simp_all
    finally have a: "nearest r \<le> 2 powi es" .
    have split_s: "(2::rat) powi es = 2 ^ 52 * us"
      unfolding us_def by (rule two_powi_split(1))
    have "2 powi es \<le> s" using ilog2_bounds(1) [OF s] es by simp
    then have "of_int (2 ^ 52) \<le> s / us"
      using us unfolding split_s by (simp add: pos_le_divide_eq)
    then have "2 ^ 52 \<le> rhe (s / us)" by (rule rhe_ge_int)
    then have "(of_int (2 ^ 52) :: rat) \<le> of_int (rhe (s / us))" by (simp only: of_int_le_iff)
    then have "of_int (2 ^ 52) * us \<le> nearest s"
      unfolding ns using us by (intro mult_right_mono) simp_all
    then have b: "2 powi es \<le> nearest s" using split_s by simp
    from a b show ?thesis by linarith
  qed
qed

lemma js_neg_js_neg: "js_neg (js_neg x) = x"
  by (cases x) simp_all

lemma js_neg_eq_NaN_iff: "js_neg x = NaN \<longleftrightarrow> x = NaN"
  by (cases x) simp_all

lemma js_le_neg: "js_le x y \<Longrightarrow> js_le (js_neg y) (js_neg x)"
  by (cases x; cases y) simp_all

lemma js_le_trans: "js_le x y \<Longrightarrow> js_le y z \<Longrightarrow> js_le x z"
  by (cases x; cases y; cases z) simp_all

lemma js_le_zero_neg: "js_le (Fin 0) x \<Longrightarrow> js_le (js_neg x) (Fin 0)"
  using js_le_neg [of "Fin 0" x] by simp

lemma js_le_neg_zero: "js_le x (Fin 0) \<Longrightarrow> js_le (Fin 0) (js_neg x)"
  using js_le_neg [of x "Fin 0"] by simp

lemma fl_pos_cases:
  "fl_pos r = PInf \<and> max_double < nearest r \<or> fl_pos r = Fin (nearest r) \<and> nearest r \<le> max_double"
  by (auto simp: fl_pos_def Let_def)

lemma fl_pos_nonneg: "0 \<le> r \<Longrightarrow> js_le (Fin 0) (fl_pos r)"
  using fl_pos_cases [of r] nearest_nonneg [of r] by auto

lemma fl_pos_mono:
  assumes "0 < r" and "r \<le> s"
  shows "js_le (fl_pos r) (fl_pos s)"
  using fl_pos_cases [of r] fl_pos_cases [of s] nearest_mono [OF assms] by auto

lemma fl_not_NaN: "fl r \<noteq> NaN"
  using fl_pos_cases [of r] fl_pos_cases [of "- r"] by (auto simp: fl_def)

lemma fl_nonneg: "0 \<le> r \<Longrightarrow> js_le (Fin 0) (fl r)"
  using fl_pos_nonneg [of r] by (simp add: fl_def)

lemma fl_nonpos: "r \<le> 0 \<Longrightarrow> js_le (fl r) (Fin 0)"
  using js_le_zero_neg [OF fl_pos_nonneg [of "- r"]] by (simp add: fl_def)

lemma fl_mono:
  assumes "r \<le> s"
  shows "js_le (fl r) (fl s)"
proof -
  consider "0 < r" | "r \<le> 0" "0 \<le> s" | "s < 0" by linarith
  then show ?thesis
  proof cases
    case 1
    with assms fl_pos_mono [of r s] show ?thesis by (simp add: fl_def)
  next
    case 2
    from fl_nonpos [OF 2(1)] fl_nonneg [OF 2(2)] show ?thesis by (rule js_le_trans)
  next
    case 3
    then have "0 < - s" "- s \<le> - r" using assms by simp_all
    from js_le_neg [OF fl_pos_mono [OF this]] 3 assms show ?thesis by (simp add: fl_def)
  qed
qed

lemma rhe_eqI:
  assumes "\<bar>q - of_int n\<bar> < 1 / 2 \<or> \<bar>q - of_int n\<bar> = 1 / 2 \<and> even n"
  shows "rhe q = n"
proof -
  from assms have "\<lfloor>q\<rfloor> = n \<or> \<lfloor>q\<rfloor> = n - 1" by (auto simp: floor_eq_iff abs_if split: if_splits)
  then show ?thesis
  proof
    assume f: "\<lfloor>q\<rfloor> = n"
    with assms have "q - of_int n < 1 / 2 \<or> q - of_int n = 1 / 2 \<and> even n"
      by (auto simp: abs_if split: if_splits)
    with f show ?thesis by (auto simp: rhe_def Let_def)
  next
    assume f: "\<lfloor>q\<rfloor> = n - 1"
    then have "q < of_int n" by (metis diff_add_cancel floor_less_iff less_add_one of_int_less_iff zless_add1_eq)
    with assms have "of_int n - q < 1 / 2 \<or> of_int n - q = 1 / 2 \<and> even n"
      by (auto simp: abs_if split: if_splits)
    with f show ?thesis by (auto simp: rhe_def Let_def)
  qed
qed

text \<open>A certificate for one rounding: the binade of \<open>r\<close> and the rounded significand.\<close>

lemma fl_eqI:
  assumes "2 powi e \<le> r" and "r < 2 powi (e + 1)" and "- 1022 \<le> e"
    and "\<bar>r / 2 powi (e - 52) - of_int n\<bar> < 1 / 2 \<or>
         \<bar>r / 2 powi (e - 52) - of_int n\<bar> = 1 / 2 \<and> even n"
    and "of_int n * 2 powi (e - 52) \<le> max_double"
  shows "fl r = Fin (of_int n * 2 powi (e - 52))"
proof -
  have r: "0 < r" using assms(1) two_powi_pos [of e] by linarith
  have "ilog2 r = e" by (rule ilog2_eqI [OF assms(1,2)])
  moreover have "rhe (r / 2 powi (e - 52)) = n" by (rule rhe_eqI [OF assms(4)])
  ultimately have "nearest r = of_int n * 2 powi (e - 52)"
    using assms(3) by (simp add: nearest_def Let_def max_def)
  then show ?thesis using r assms(5) by (simp add: fl_def fl_pos_def Let_def)
qed

lemma fl_of_int:
  assumes "\<bar>n\<bar> \<le> 2 ^ 53"
  shows "fl (of_int n) = Fin (of_int n)"
proof -
  have pos: "fl (of_int m) = Fin (of_int m)" if m: "0 < m" "m \<le> 2 ^ 53" for m :: int
  proof -
    define e where "e = ilog2 (of_int m)"
    have mr: "0 < (of_int m :: rat)" using m by simp
    note b = ilog2_bounds [OF mr, folded e_def]
    have e0: "0 \<le> e"
    proof (rule ccontr)
      assume "\<not> 0 \<le> e"
      then have "e + 1 \<le> 0" by simp
      then have "(2::rat) powi (e + 1) \<le> 2 powi 0" by (intro power_int_increasing) simp_all
      with b(2) have "(of_int m :: rat) < 1" by simp
      with m show False by simp
    qed
    have e53: "e \<le> 53"
    proof (rule ccontr)
      assume "\<not> e \<le> 53"
      then have "54 \<le> e" by simp
      then have "(2::rat) powi 54 \<le> 2 powi e" by (intro power_int_increasing) simp_all
      with b(1) have "(2::rat) ^ 54 \<le> of_int m" by simp
      moreover have "(of_int m :: rat) \<le> of_int (2 ^ 53)" using m(2) by (simp only: of_int_le_iff)
      ultimately show False by simp
    qed
    show ?thesis
    proof (cases "e = 53")
      case True
      with b(1) have "(2::rat) ^ 53 \<le> of_int m" by simp
      then have "(of_int (2 ^ 53) :: rat) \<le> of_int m" by simp
      then have "2 ^ 53 \<le> m" by (simp only: of_int_le_iff)
      with m(2) have m53: "m = 2 ^ 53" by simp
      have "fl (of_int m) = Fin (of_int (2 ^ 52) * 2 powi (53 - 52))"
      proof (rule fl_eqI)
        show "(2::rat) powi 53 \<le> of_int m" using m53 by simp
        show "(of_int m :: rat) < 2 powi (53 + 1)" using m53 by simp
        show "- 1022 \<le> (53::int)" by simp
        have "(of_int m :: rat) / 2 powi (53 - 52) = of_int (2 ^ 52)" using m53 by simp
        then show "\<bar>of_int m / 2 powi (53 - 52) - (of_int (2 ^ 52) :: rat)\<bar> < 1 / 2 \<or>
            \<bar>of_int m / 2 powi (53 - 52) - (of_int (2 ^ 52) :: rat)\<bar> = 1 / 2 \<and> even ((2::int) ^ 52)"
          by (simp only:) simp
        show "(of_int (2 ^ 52) :: rat) * 2 powi (53 - 52) \<le> max_double"
          by (simp add: max_double_def)
      qed
      then show ?thesis using m53 by simp
    next
      case False
      with e53 have e52: "e \<le> 52" by simp
      define k where "k = nat (52 - e)"
      have u: "(2::rat) powi (e - 52) = 1 / 2 ^ k"
      proof -
        have "e - 52 = - int k" using e52 by (simp add: k_def)
        then show ?thesis by (simp add: power_int_minus_divide)
      qed
      have q: "(of_int m :: rat) / 2 powi (e - 52) = of_int (m * 2 ^ k)" by (simp add: u)
      have "fl (of_int m) = Fin (of_int (m * 2 ^ k) * 2 powi (e - 52))"
      proof (rule fl_eqI)
        show "(2::rat) powi e \<le> of_int m" by (rule b(1))
        show "(of_int m :: rat) < 2 powi (e + 1)" by (rule b(2))
        show "- 1022 \<le> e" using e0 by simp
        show "\<bar>of_int m / 2 powi (e - 52) - (of_int (m * 2 ^ k) :: rat)\<bar> < 1 / 2 \<or>
            \<bar>of_int m / 2 powi (e - 52) - (of_int (m * 2 ^ k) :: rat)\<bar> = 1 / 2 \<and> even (m * 2 ^ k)"
          by (simp only: q) simp
        have "(of_int (m * 2 ^ k) :: rat) * 2 powi (e - 52) = of_int m" by (simp add: u)
        also have "\<dots> \<le> of_int (2 ^ 53)" using m(2) by (simp only: of_int_le_iff)
        also have "\<dots> \<le> max_double" by (simp add: max_double_def)
        finally show "(of_int (m * 2 ^ k) :: rat) * 2 powi (e - 52) \<le> max_double" .
      qed
      then show ?thesis by (simp add: u)
    qed
  qed
  consider "n = 0" | "0 < n" | "n < 0" by linarith
  then show ?thesis
  proof cases
    case 1
    then show ?thesis by (simp add: fl_def)
  next
    case 2
    with assms pos [of n] show ?thesis by simp
  next
    case 3
    with assms pos [of "- n"] have "fl (of_int (- n)) = Fin (of_int (- n))" by simp
    moreover have "fl (of_int (- n)) = fl_pos (- of_int n)" using 3 by (simp add: fl_def)
    ultimately show ?thesis using 3 by (simp add: fl_def)
  qed
qed

section \<open>Signs of the operators and of the two-decimal rounding\<close>

lemma js_mul_Fin: "js_mul (Fin a) (Fin b) = fl (a * b)"
  by simp

lemma js_sub_Fin: "js_sub (Fin a) (Fin b) = fl (a - b)"
  by (simp add: js_sub_def)

lemma js_sub_eq_NaN_iff:
  "js_sub x y = NaN \<longleftrightarrow> x = NaN \<or> y = NaN \<or> x = PInf \<and> y = PInf \<or> x = NInf \<and> y = NInf"
  by (cases x; cases y) (simp_all add: js_sub_def fl_not_NaN)

lemma js_sub_nonpos:
  assumes "js_le x y"
  shows "js_sub x y = NaN \<or> js_le (js_sub x y) (Fin 0)"
proof (cases x; cases y)
  fix a b assume "x = Fin a" "y = Fin b"
  with assms fl_nonpos [of "a - b"] show ?thesis by (simp add: js_sub_def)
qed (use assms in \<open>simp_all add: js_sub_def\<close>)

lemma js_sub_nonneg:
  assumes "js_le y x"
  shows "js_sub x y = NaN \<or> js_le (Fin 0) (js_sub x y)"
proof (cases x; cases y)
  fix a b assume "x = Fin a" "y = Fin b"
  with assms fl_nonneg [of "a - b"] show ?thesis by (simp add: js_sub_def)
qed (use assms in \<open>simp_all add: js_sub_def\<close>)

lemma js_add_nonneg:
  assumes "js_le (Fin 0) x" and "js_le (Fin 0) y"
  shows "js_le (Fin 0) (js_add x y)"
proof (cases x; cases y)
  fix a b assume "x = Fin a" "y = Fin b"
  with assms fl_nonneg [of "a + b"] show ?thesis by simp
qed (use assms in simp_all)

lemma toFixed2_cases:
  "toFixed2 x = Literal x \<and> (\<forall>r. x = Fin r \<longrightarrow> 10 ^ 21 \<le> \<bar>r\<bar>) \<or>
   (\<exists>r. x = Fin r \<and> \<bar>r\<bar> < 10 ^ 21 \<and> toFixed2 x = Hundredths (r < 0) (nat \<lfloor>\<bar>r\<bar> * 100 + 1 / 2\<rfloor>))"
  by (cases x) (auto simp: toFixed2_def)

lemma round2_eq_NaN_iff: "parseFloat (toFixed2 x) = NaN \<longleftrightarrow> x = NaN"
  using toFixed2_cases [of x] by (auto simp: fl_not_NaN js_neg_eq_NaN_iff split: if_splits)

lemma round2_nonneg:
  assumes "js_le (Fin 0) x"
  shows "js_le (Fin 0) (parseFloat (toFixed2 x))"
proof -
  from toFixed2_cases [of x] show ?thesis
  proof
    assume "toFixed2 x = Literal x \<and> (\<forall>r. x = Fin r \<longrightarrow> 10 ^ 21 \<le> \<bar>r\<bar>)"
    with assms show ?thesis by simp
  next
    assume "\<exists>r. x = Fin r \<and> \<bar>r\<bar> < 10 ^ 21 \<and>
      toFixed2 x = Hundredths (r < 0) (nat \<lfloor>\<bar>r\<bar> * 100 + 1 / 2\<rfloor>)"
    then obtain r where x: "x = Fin r"
      and t: "toFixed2 x = Hundredths (r < 0) (nat \<lfloor>\<bar>r\<bar> * 100 + 1 / 2\<rfloor>)" by blast
    from assms x have "\<not> r < 0" by simp
    with t show ?thesis by (simp add: fl_nonneg)
  qed
qed

lemma round2_nonpos:
  assumes "js_le x (Fin 0)"
  shows "js_le (parseFloat (toFixed2 x)) (Fin 0)"
proof -
  from toFixed2_cases [of x] show ?thesis
  proof
    assume "toFixed2 x = Literal x \<and> (\<forall>r. x = Fin r \<longrightarrow> 10 ^ 21 \<le> \<bar>r\<bar>)"
    with assms show ?thesis by simp
  next
    assume "\<exists>r. x = Fin r \<and> \<bar>r\<bar> < 10 ^ 21 \<and>
      toFixed2 x = Hundredths (r < 0) (nat \<lfloor>\<bar>r\<bar> * 100 + 1 / 2\<rfloor>)"
    then obtain r where x: "x = Fin r"
      and t: "toFixed2 x = Hundredths (r < 0) (nat \<lfloor>\<bar>r\<bar> * 100 + 1 / 2\<rfloor>)" by blast
    from assms x have r: "r \<le> 0" by simp
    show ?thesis
    proof (cases "r < 0")
      case True
      with t show ?thesis by (simp add: js_le_zero_neg fl_nonneg)
    next
      case False
      with r have "r = 0" by simp
      with t show ?thesis by (simp add: fl_def)
    qed
  qed
qed

lemma Math_max_zero_nonneg: "js_le (Fin 0) y \<Longrightarrow> Math_max (Fin 0) y = y"
  by (cases y) (simp_all add: Math_max_def)

lemma Math_max_zero_nonpos: "js_le y (Fin 0) \<Longrightarrow> Math_max (Fin 0) y = Fin 0"
  by (cases y) (auto simp: Math_max_def)

lemma Math_max_NaN: "Math_max (Fin 0) NaN = NaN"
  by (simp add: Math_max_def)

lemma Math_max_zero_cases: "Math_max (Fin 0) y = NaN \<or> js_le (Fin 0) (Math_max (Fin 0) y)"
  by (cases y) (auto simp: Math_max_def)

lemma calculateSafetyStock_cases:
  "calculateSafetyStock item = NaN \<or> js_le (Fin 0) (calculateSafetyStock item)"
  unfolding calculateSafetyStock_def Let_def by (rule Math_max_zero_cases)

lemma toFixed2_eqI:
  assumes "\<bar>r\<bar> < 10 ^ 21"
    and "of_nat n \<le> \<bar>r\<bar> * 100 + 1 / 2" and "\<bar>r\<bar> * 100 + 1 / 2 < of_nat n + 1"
  shows "toFixed2 (Fin r) = Hundredths (r < 0) n"
proof -
  have "\<lfloor>\<bar>r\<bar> * 100 + 1 / 2\<rfloor> = int n"
    using assms(2,3) by (simp add: floor_eq_iff)
  then show ?thesis using assms(1) by (simp add: toFixed2_def)
qed

lemma round2_of_int:
  assumes "\<bar>n\<bar> \<le> 2 ^ 53"
  shows "parseFloat (toFixed2 (Fin (of_int n))) = Fin (of_int n)"
proof -
  have small: "\<bar>of_int n :: rat\<bar> < 10 ^ 21"
  proof -
    have "\<bar>of_int n :: rat\<bar> = of_int \<bar>n\<bar>" by simp
    also have "\<dots> \<le> of_int (2 ^ 53)" using assms by (simp only: of_int_le_iff)
    also have "\<dots> < 10 ^ 21" by simp
    finally show ?thesis .
  qed
  have t: "toFixed2 (Fin (of_int n)) = Hundredths (of_int n < (0::rat)) (nat (\<bar>n\<bar> * 100))"
    by (rule toFixed2_eqI [OF small]) simp_all
  have q: "(of_nat (nat (\<bar>n\<bar> * 100)) :: rat) / 100 = of_int \<bar>n\<bar>" by simp
  have f: "fl (of_int \<bar>n\<bar>) = Fin (of_int \<bar>n\<bar>)" using assms by (intro fl_of_int) simp
  have "parseFloat (toFixed2 (Fin (of_int n))) =
          (if of_int n < (0::rat) then js_neg (Fin (of_int \<bar>n\<bar>)) else Fin (of_int \<bar>n\<bar>))"
    by (simp only: t parseFloat.simps q f)
  also have "\<dots> = Fin (of_int n)" by simp
  finally show ?thesis .
qed

lemma js_add_eq_NaN_nonneg:
  assumes "js_le (Fin 0) x"
  shows "js_add x y = NaN \<longleftrightarrow> y = NaN \<or> x = PInf \<and> y = NInf"
  using assms by (cases x; cases y) (simp_all add: fl_not_NaN)

section \<open>Certificates for the roundings of the examples\<close>

text \<open>
  Each lemma below is one rounding that occurs in an example: the exact value, and the
  double it is rounded to, checked from its binade and its rounded significand by
  \<open>fl_eqI\<close>; or one \<open>toFixed(2)\<close>, checked from its number of hundredths by \<open>toFixed2_eqI\<close>.
  The lemmas \<open>double_0_01\<close>, \<open>double_0_08\<close>, ... give the doubles that the decimal literals
  \<open>0.01\<close>, \<open>0.08\<close>, ... denote.
\<close>

lemma whole_numbers:
  "fl 10 = Fin 10" "fl 20 = Fin 20"
  "parseFloat (toFixed2 (Fin 10)) = Fin 10" "parseFloat (toFixed2 (Fin 20)) = Fin 20"
  "parseFloat (toFixed2 (Fin (- 10))) = Fin (- 10)"
  using fl_of_int [of 10] fl_of_int [of 20] round2_of_int [of 10] round2_of_int [of 20]
    round2_of_int [of "- 10"]
  by simp_all

lemma double_0_01: "fl (1 / 100) = Fin (5764607523034235 / 576460752303423488)"
proof -
  have "fl (1 / 100) = Fin (of_int 5764607523034235 * 2 powi (-7 - 52))"
    by (rule fl_eqI) (simp_all add: max_double_def)
  then show ?thesis by simp
qed

lemma double_0_08: "fl (2 / 25) = Fin (5764607523034235 / 72057594037927936)"
proof -
  have "fl (2 / 25) = Fin (of_int 5764607523034235 * 2 powi (-4 - 52))"
    by (rule fl_eqI) (simp_all add: max_double_def)
  then show ?thesis by simp
qed

lemma fl_cert_3: "fl (17293822569102705 / 144115188075855872) = Fin (1080863910568919 / 9007199254740992)"
proof -
  have "fl (17293822569102705 / 144115188075855872) = Fin (of_int 8646911284551352 * 2 powi (-4 - 52))"
    by (rule fl_eqI) (simp_all add: max_double_def)
  then show ?thesis by simp
qed

lemma fl_cert_4: "fl (17293822569102705 / 1152921504606846976) = Fin (1080863910568919 / 72057594037927936)"
proof -
  have "fl (17293822569102705 / 1152921504606846976) = Fin (of_int 8646911284551352 * 2 powi (-7 - 52))"
    by (rule fl_eqI) (simp_all add: max_double_def)
  then show ?thesis by simp
qed

lemma fl_cert_5: "fl (7566047373982433 / 72057594037927936) = Fin (7566047373982433 / 72057594037927936)"
proof -
  have "fl (7566047373982433 / 72057594037927936) = Fin (of_int 7566047373982433 * 2 powi (-4 - 52))"
    by (rule fl_eqI) (simp_all add: max_double_def)
  then show ?thesis by simp
qed

lemma toFixed2_cert_1: "toFixed2 (Fin (7566047373982433 / 72057594037927936)) = Hundredths False 10"
proof -
  have "toFixed2 (Fin (7566047373982433 / 72057594037927936)) = Hundredths ((7566047373982433 / 72057594037927936) < (0::rat)) 10"
    by (rule toFixed2_eqI) simp_all
  then show ?thesis by simp
qed

lemma double_0_1: "fl (1 / 10) = Fin (3602879701896397 / 36028797018963968)"
proof -
  have "fl (1 / 10) = Fin (of_int 7205759403792794 * 2 powi (-4 - 52))"
    by (rule fl_eqI) (simp_all add: max_double_def)
  then show ?thesis by simp
qed

lemma double_0_11: "fl (11 / 100) = Fin (7926335344172073 / 72057594037927936)"
proof -
  have "fl (11 / 100) = Fin (of_int 7926335344172073 * 2 powi (-4 - 52))"
    by (rule fl_eqI) (simp_all add: max_double_def)
  then show ?thesis by simp
qed

lemma fl_cert_8: "fl (40352252661239645 / 576460752303423488) = Fin (1261007895663739 / 18014398509481984)"
proof -
  have "fl (40352252661239645 / 576460752303423488) = Fin (of_int 5044031582654956 * 2 powi (-4 - 52))"
    by (rule fl_eqI) (simp_all add: max_double_def)
  then show ?thesis by simp
qed

lemma fl_cert_9: "fl (3783023686991217 / 36028797018963968) = Fin (3783023686991217 / 36028797018963968)"
proof -
  have "fl (3783023686991217 / 36028797018963968) = Fin (of_int 7566047373982434 * 2 powi (-4 - 52))"
    by (rule fl_eqI) (simp_all add: max_double_def)
  then show ?thesis by simp
qed

lemma toFixed2_cert_2: "toFixed2 (Fin (3783023686991217 / 36028797018963968)) = Hundredths False 11"
proof -
  have "toFixed2 (Fin (3783023686991217 / 36028797018963968)) = Hundredths ((3783023686991217 / 36028797018963968) < (0::rat)) 11"
    by (rule toFixed2_eqI) simp_all
  then show ?thesis by simp
qed

lemma toFixed2_cert_3: "toFixed2 (Fin (121056757983718935 / 1152921504606846976)) = Hundredths False 11"
proof -
  have "toFixed2 (Fin (121056757983718935 / 1152921504606846976)) = Hundredths ((121056757983718935 / 1152921504606846976) < (0::rat)) 11"
    by (rule toFixed2_eqI) simp_all
  then show ?thesis by simp
qed

lemma double_0_005: "fl (1 / 200) = Fin (5764607523034235 / 1152921504606846976)"
proof -
  have "fl (1 / 200) = Fin (of_int 5764607523034235 * 2 powi (-8 - 52))"
    by (rule fl_eqI) (simp_all add: max_double_def)
  then show ?thesis by simp
qed

lemma double_1_005: "fl (201 / 200) = Fin (1131529406376837 / 1125899906842624)"
proof -
  have "fl (201 / 200) = Fin (of_int 4526117625507348 * 2 powi (0 - 52))"
    by (rule fl_eqI) (simp_all add: max_double_def)
  then show ?thesis by simp
qed

lemma fl_cert_12: "fl (1131529406376837 / 1125899906842624) = Fin (1131529406376837 / 1125899906842624)"
proof -
  have "fl (1131529406376837 / 1125899906842624) = Fin (of_int 4526117625507348 * 2 powi (0 - 52))"
    by (rule fl_eqI) (simp_all add: max_double_def)
  then show ?thesis by simp
qed

lemma fl_cert_13: "fl (5764607523034235 / 1152921504606846976) = Fin (5764607523034235 / 1152921504606846976)"
proof -
  have "fl (5764607523034235 / 1152921504606846976) = Fin (of_int 5764607523034235 * 2 powi (-8 - 52))"
    by (rule fl_eqI) (simp_all add: max_double_def)
  then show ?thesis by simp
qed

lemma fl_cert_14: "fl (1152921504606846853 / 1152921504606846976) = Fin (9007199254740991 / 9007199254740992)"
proof -
  have "fl (1152921504606846853 / 1152921504606846976) = Fin (of_int 9007199254740991 * 2 powi (-1 - 52))"
    by (rule fl_eqI) (simp_all add: max_double_def)
  then show ?thesis by simp
qed

lemma toFixed2_cert_4: "toFixed2 (Fin (9007199254740991 / 9007199254740992)) = Hundredths False 100"
proof -
  have "toFixed2 (Fin (9007199254740991 / 9007199254740992)) = Hundredths ((9007199254740991 / 9007199254740992) < (0::rat)) 100"
    by (rule toFixed2_eqI) simp_all
  then show ?thesis by simp
qed

lemma fl_cert_15: "fl (1158686112129881211 / 1152921504606846976) = Fin (1131529406376837 / 1125899906842624)"
proof -
  have "fl (1158686112129881211 / 1152921504606846976) = Fin (of_int 4526117625507348 * 2 powi (0 - 52))"
    by (rule fl_eqI) (simp_all add: max_double_def)
  then show ?thesis by simp
qed

lemma toFixed2_cert_5: "toFixed2 (Fin (1131529406376837 / 1125899906842624)) = Hundredths False 100"
proof -
  have "toFixed2 (Fin (1131529406376837 / 1125899906842624)) = Hundredths ((1131529406376837 / 1125899906842624) < (0::rat)) 100"
    by (rule toFixed2_eqI) simp_all
  then show ?thesis by simp
qed

lemma toFixed2_cert_6: "toFixed2 (Fin (5764607523034235 / 1152921504606846976)) = Hundredths False 1"
proof -
  have "toFixed2 (Fin (5764607523034235 / 1152921504606846976)) = Hundredths ((5764607523034235 / 1152921504606846976) < (0::rat)) 1"
    by (rule toFixed2_eqI) simp_all
  then show ?thesis by simp
qed

lemma fl_cert_16: "fl (582225359826457723 / 576460752303423488) = Fin (4548635623644201 / 4503599627370496)"
proof -
  have "fl (582225359826457723 / 576460752303423488) = Fin (of_int 4548635623644201 * 2 powi (0 - 52))"
    by (rule fl_eqI) (simp_all add: max_double_def)
  then show ?thesis by simp
qed

lemma double_1_01: "fl (101 / 100) = Fin (4548635623644201 / 4503599627370496)"
proof -
  have "fl (101 / 100) = Fin (of_int 4548635623644201 * 2 powi (0 - 52))"
    by (rule fl_eqI) (simp_all add: max_double_def)
  then show ?thesis by simp
qed

section \<open>Properties of the inventory calculator\<close>

text \<open>
  C1, as stated, fails. For \<open>A = 0.01\<close>, \<open>M = 0.08\<close>, \<open>L = 1.5\<close> (the doubles written so)
  \<open>calculateSafetyStock\<close> returns \<open>0.1\<close>: the difference of the two rounded products lies just
  below \<open>0.105\<close>. But \<open>round2((M - A) * L)\<close> is \<open>0.11\<close>, whether the difference and the product
  are taken in double arithmetic or exactly.
\<close>
theorem calculateSafetyStock_rounding_counterexample:
  "calculateSafetyStock
     \<lparr>item_id = 1, name = ''Chili oil'', category = ''Sauce'', unit = ''kg'',
       avgDailyUsage = fl (1 / 100), maxDailyUsage = fl (2 / 25), leadTime = Fin (3 / 2),
       currentStock = Fin 0\<rparr> = fl (1 / 10) \<and>
   parseFloat (toFixed2 (js_mul (js_sub (fl (2 / 25)) (fl (1 / 100))) (Fin (3 / 2)))) = fl (11 / 100) \<and>
   fl (1 / 100) = Fin (5764607523034235 / 576460752303423488) \<and>
   fl (2 / 25) = Fin (5764607523034235 / 72057594037927936) \<and>
   parseFloat (toFixed2 (Fin ((5764607523034235 / 72057594037927936
                               - 5764607523034235 / 576460752303423488) * (3 / 2)))) = fl (11 / 100) \<and>
   fl (1 / 10) \<noteq> fl (11 / 100)"
proof (intro conjI)
  show "calculateSafetyStock
     \<lparr>item_id = 1, name = ''Chili oil'', category = ''Sauce'', unit = ''kg'',
       avgDailyUsage = fl (1 / 100), maxDailyUsage = fl (2 / 25), leadTime = Fin (3 / 2),
       currentStock = Fin 0\<rparr> = fl (1 / 10)"
    by (simp add: calculateSafetyStock_def js_sub_Fin double_0_01 double_0_08 fl_cert_3 fl_cert_4
        fl_cert_5 toFixed2_cert_1 double_0_1 Math_max_def)
  show "parseFloat (toFixed2 (js_mul (js_sub (fl (2 / 25)) (fl (1 / 100))) (Fin (3 / 2)))) = fl (11 / 100)"
    by (simp add: js_sub_Fin double_0_01 double_0_08 fl_cert_8 fl_cert_9 toFixed2_cert_2)
  show "fl (1 / 100) = Fin (5764607523034235 / 576460752303423488)" by (rule double_0_01)
  show "fl (2 / 25) = Fin (5764607523034235 / 72057594037927936)" by (rule double_0_08)
  show "parseFloat (toFixed2 (Fin ((5764607523034235 / 72057594037927936
                               - 5764607523034235 / 576460752303423488) * (3 / 2)))) = fl (11 / 100)"
    by (simp add: toFixed2_cert_3)
  show "fl (1 / 10) \<noteq> fl (11 / 100)" by (simp add: double_0_1 double_0_11)
qed

text \<open>
  C1, amended: for every item whose avgDailyUsage \<open>A\<close>, maxDailyUsage \<open>M\<close> and leadTime \<open>L\<close>
  are finite and non-negative with \<open>M \<ge> A\<close>, \<open>calculateSafetyStock\<close> returns
  \<open>round2(M * L - A * L)\<close>, the two products and the difference each rounded to a double (the
  maximum with 0 changes nothing); the result is \<open>\<ge> 0\<close>, or NaN, which happens exactly when
  both products overflow to Infinity. It is \<open>round2((M - A) * L)\<close> whenever the two products and
  their difference are computed without rounding error.
\<close>
theorem calculateSafetyStock_max_at_least_avg:
  assumes "avgDailyUsage item = Fin A" and "maxDailyUsage item = Fin M" and "leadTime item = Fin L"
    and "0 \<le> A" and "A \<le> M" and "0 \<le> L"
  shows "calculateSafetyStock item =
           parseFloat (toFixed2 (js_sub (js_mul (Fin M) (Fin L)) (js_mul (Fin A) (Fin L)))) \<and>
         (calculateSafetyStock item = NaN \<longleftrightarrow>
            js_mul (Fin M) (Fin L) = PInf \<and> js_mul (Fin A) (Fin L) = PInf) \<and>
         (calculateSafetyStock item = NaN \<or> js_le (Fin 0) (calculateSafetyStock item)) \<and>
         (js_mul (Fin M) (Fin L) = Fin (M * L) \<and> js_mul (Fin A) (Fin L) = Fin (A * L) \<and>
          fl (M * L - A * L) = Fin (M * L - A * L) \<longrightarrow>
            calculateSafetyStock item = parseFloat (toFixed2 (Fin ((M - A) * L))))"
proof -
  define raw where "raw = js_sub (fl (M * L)) (fl (A * L))"
  have ss: "calculateSafetyStock item = Math_max (Fin 0) (parseFloat (toFixed2 raw))"
    by (simp add: calculateSafetyStock_def assms(1-3) raw_def)
  have "A * L \<le> M * L" using assms(5,6) by (simp add: mult_right_mono)
  then have le: "js_le (fl (A * L)) (fl (M * L))" by (rule fl_mono)
  have al: "js_le (Fin 0) (fl (A * L))" using assms(4,6) by (intro fl_nonneg) simp
  have nan_iff: "raw = NaN \<longleftrightarrow> fl (M * L) = PInf \<and> fl (A * L) = PInf"
    using al unfolding raw_def js_sub_eq_NaN_iff by (auto simp: fl_not_NaN)
  have eq: "calculateSafetyStock item = parseFloat (toFixed2 raw)"
  proof (cases "raw = NaN")
    case True
    show ?thesis unfolding ss True by (simp add: toFixed2_def Math_max_def)
  next
    case False
    with js_sub_nonneg [OF le] have "js_le (Fin 0) raw" by (simp add: raw_def)
    then have "js_le (Fin 0) (parseFloat (toFixed2 raw))" by (rule round2_nonneg)
    then show ?thesis unfolding ss by (rule Math_max_zero_nonneg)
  qed
  have 1: "calculateSafetyStock item =
      parseFloat (toFixed2 (js_sub (js_mul (Fin M) (Fin L)) (js_mul (Fin A) (Fin L))))"
    using eq by (simp add: raw_def)
  have 2: "calculateSafetyStock item = NaN \<longleftrightarrow>
      js_mul (Fin M) (Fin L) = PInf \<and> js_mul (Fin A) (Fin L) = PInf"
    using nan_iff by (simp add: eq round2_eq_NaN_iff)
  have 3: "calculateSafetyStock item = NaN \<or> js_le (Fin 0) (calculateSafetyStock item)"
    by (rule calculateSafetyStock_cases)
  have 4: "calculateSafetyStock item = parseFloat (toFixed2 (Fin ((M - A) * L)))"
    if "js_mul (Fin M) (Fin L) = Fin (M * L) \<and> js_mul (Fin A) (Fin L) = Fin (A * L) \<and>
        fl (M * L - A * L) = Fin (M * L - A * L)"
  proof -
    from that have "raw = Fin (M * L - A * L)" by (simp add: raw_def js_sub_Fin)
    moreover have "M * L - A * L = (M - A) * L" by (simp add: algebra_simps)
    ultimately show ?thesis using eq by simp
  qed
  from 1 2 3 4 show ?thesis by blast
qed

theorem calculateSafetyStock_max_at_least_avg_witness:
  "calculateSafetyStock
     \<lparr>item_id = 1, name = ''Beef'', category = ''Meat'', unit = ''kg'', avgDailyUsage = Fin 5,
       maxDailyUsage = Fin 10, leadTime = Fin 2, currentStock = Fin 15\<rparr>
     = parseFloat (toFixed2 (Fin ((10 - 5) * 2))) \<and>
   parseFloat (toFixed2 (Fin ((10 - 5) * 2))) = Fin 10"
proof -
  let ?item = "\<lparr>item_id = 1, name = ''Beef'', category = ''Meat'', unit = ''kg'',
       avgDailyUsage = Fin 5, maxDailyUsage = Fin 10, leadTime = Fin 2, currentStock = Fin 15\<rparr>"
  have h: "avgDailyUsage ?item = Fin 5" "maxDailyUsage ?item = Fin 10" "leadTime ?item = Fin 2"
      "(0::rat) \<le> 5" "(5::rat) \<le> 10" "(0::rat) \<le> 2"
    by simp_all
  have exact: "js_mul (Fin 10) (Fin 2) = Fin (10 * 2) \<and> js_mul (Fin 5) (Fin 2) = Fin (5 * 2) \<and>
      fl (10 * 2 - 5 * 2) = Fin (10 * 2 - 5 * 2)"
    by (simp add: whole_numbers)
  from calculateSafetyStock_max_at_least_avg [OF h]
  have "js_mul (Fin 10) (Fin 2) = Fin (10 * 2) \<and> js_mul (Fin 5) (Fin 2) = Fin (5 * 2) \<and>
      fl (10 * 2 - 5 * 2) = Fin (10 * 2 - 5 * 2) \<longrightarrow>
      calculateSafetyStock ?item = parseFloat (toFixed2 (Fin ((10 - 5) * 2)))"
    by blast
  from this [rule_format, OF exact]
  have "calculateSafetyStock ?item = parseFloat (toFixed2 (Fin ((10 - 5) * 2)))" .
  moreover have "parseFloat (toFixed2 (Fin ((10 - 5) * 2))) = Fin 10"
    by (simp add: whole_numbers)
  ultimately show ?thesis by (rule conjI)
qed

text \<open>
  C2, as stated, fails. For \<open>A = 0.005\<close>, \<open>M = 1.005\<close>, \<open>L = 1\<close> the safety stock is \<open>1\<close> and
  \<open>calculateReorderPoint\<close> returns \<open>1\<close>: the double sum \<open>0.005 + 1\<close> lies just below \<open>1.005\<close>.
  But \<open>round2(A * L) + safetyStock\<close> is \<open>0.01 + 1 = 1.01\<close>.
\<close>
theorem calculateReorderPoint_rounding_counterexample:
  "calculateReorderPoint
     \<lparr>item_id = 1, name = ''Sichuan pepper'', category = ''Spice'', unit = ''kg'',
       avgDailyUsage = fl (1 / 200), maxDailyUsage = fl (201 / 200), leadTime = Fin 1,
       currentStock = Fin 0\<rparr> = Fin 1 \<and>
   calculateSafetyStock
     \<lparr>item_id = 1, name = ''Sichuan pepper'', category = ''Spice'', unit = ''kg'',
       avgDailyUsage = fl (1 / 200), maxDailyUsage = fl (201 / 200), leadTime = Fin 1,
       currentStock = Fin 0\<rparr> = Fin 1 \<and>
   parseFloat (toFixed2 (js_mul (fl (1 / 200)) (Fin 1))) = fl (1 / 100) \<and>
   js_add (fl (1 / 100)) (Fin 1) = fl (101 / 100) \<and>
   fl (101 / 100) \<noteq> Fin 1"
proof -
  have one: "fl 1 = Fin 1" using fl_of_int [of 1] by simp
  have ss: "calculateSafetyStock
     \<lparr>item_id = 1, name = ''Sichuan pepper'', category = ''Spice'', unit = ''kg'',
       avgDailyUsage = fl (1 / 200), maxDailyUsage = fl (201 / 200), leadTime = Fin 1,
       currentStock = Fin 0\<rparr> = Fin 1"
    by (simp add: calculateSafetyStock_def js_sub_Fin double_0_005 double_1_005 fl_cert_12
        fl_cert_13 fl_cert_14 toFixed2_cert_4 one Math_max_def)
  have rp: "calculateReorderPoint
     \<lparr>item_id = 1, name = ''Sichuan pepper'', category = ''Spice'', unit = ''kg'',
       avgDailyUsage = fl (1 / 200), maxDailyUsage = fl (201 / 200), leadTime = Fin 1,
       currentStock = Fin 0\<rparr> = Fin 1"
    unfolding calculateReorderPoint_def Let_def ss
    by (simp add: double_0_005 fl_cert_13 fl_cert_15 toFixed2_cert_5 one)
  have a: "parseFloat (toFixed2 (js_mul (fl (1 / 200)) (Fin 1))) = fl (1 / 100)"
    by (simp add: double_0_005 fl_cert_13 toFixed2_cert_6)
  have b: "js_add (fl (1 / 100)) (Fin 1) = fl (101 / 100)"
    by (simp add: double_0_01 fl_cert_16 double_1_01)
  have c: "fl (101 / 100) \<noteq> Fin 1" by (simp add: double_1_01)
  from rp ss a b c show ?thesis by blast
qed

text \<open>
  C2, amended: for every item whose avgDailyUsage \<open>A\<close> and leadTime \<open>L\<close> are finite and
  non-negative, \<open>calculateReorderPoint\<close> returns \<open>round2(A * L + safetyStock)\<close>, the product and
  the sum each rounded to a double, with \<open>safetyStock\<close> as \<open>calculateSafetyStock\<close> computes it;
  the result is \<open>\<ge> 0\<close>, or NaN, which happens exactly when the safety stock is NaN. It is
  \<open>round2(A * L) + safetyStock\<close> when \<open>A * L\<close> and the safety stock are whole numbers with a
  sum of at most \<open>2^53\<close>.
\<close>
theorem calculateReorderPoint_nonneg_inputs:
  assumes "avgDailyUsage item = Fin A" and "leadTime item = Fin L" and "0 \<le> A" and "0 \<le> L"
  shows "calculateReorderPoint item =
           parseFloat (toFixed2 (js_add (js_mul (Fin A) (Fin L)) (calculateSafetyStock item))) \<and>
         (calculateReorderPoint item = NaN \<longleftrightarrow> calculateSafetyStock item = NaN) \<and>
         (calculateReorderPoint item = NaN \<or> js_le (Fin 0) (calculateReorderPoint item)) \<and>
         (\<forall>p k. A * L = of_int p \<and> calculateSafetyStock item = Fin (of_int k) \<and> p + k \<le> 2 ^ 53 \<longrightarrow>
            calculateReorderPoint item = Fin (of_int (p + k)) \<and>
            js_add (parseFloat (toFixed2 (js_mul (Fin A) (Fin L)))) (calculateSafetyStock item) =
              Fin (of_int (p + k)))"
proof -
  define ss where "ss = calculateSafetyStock item"
  define d where "d = fl (A * L)"
  have rp: "calculateReorderPoint item = parseFloat (toFixed2 (js_add d ss))"
    by (simp add: calculateReorderPoint_def assms(1,2) ss_def d_def)
  have d0: "js_le (Fin 0) d" unfolding d_def using assms(3,4) by (intro fl_nonneg) simp
  have ss0: "ss = NaN \<or> js_le (Fin 0) ss" unfolding ss_def by (rule calculateSafetyStock_cases)
  have nan: "js_add d ss = NaN \<longleftrightarrow> ss = NaN"
    using ss0 unfolding js_add_eq_NaN_nonneg [OF d0] by auto
  have 1: "calculateReorderPoint item =
      parseFloat (toFixed2 (js_add (js_mul (Fin A) (Fin L)) (calculateSafetyStock item)))"
    using rp by (simp add: d_def ss_def)
  have 2: "calculateReorderPoint item = NaN \<longleftrightarrow> calculateSafetyStock item = NaN"
    using nan by (simp add: rp round2_eq_NaN_iff ss_def)
  have 3: "calculateReorderPoint item = NaN \<or> js_le (Fin 0) (calculateReorderPoint item)"
  proof (cases "ss = NaN")
    case True
    with 2 show ?thesis by (simp add: ss_def)
  next
    case False
    with ss0 have "js_le (Fin 0) ss" by simp
    with d0 have "js_le (Fin 0) (js_add d ss)" by (rule js_add_nonneg)
    then show ?thesis unfolding rp by (intro disjI2 round2_nonneg)
  qed
  have 4: "calculateReorderPoint item = Fin (of_int (p + k)) \<and>
      js_add (parseFloat (toFixed2 (js_mul (Fin A) (Fin L)))) (calculateSafetyStock item) =
        Fin (of_int (p + k))"
    if h: "A * L = of_int p \<and> calculateSafetyStock item = Fin (of_int k) \<and> p + k \<le> 2 ^ 53"
    for p k
  proof -
    from h have al: "A * L = of_int p" and sk: "ss = Fin (of_int k)" and le: "p + k \<le> 2 ^ 53"
      by (simp_all add: ss_def)
    have "(0::rat) \<le> of_int p" using assms(3,4) al [symmetric] by simp
    then have p0: "0 \<le> p" by simp
    from ss0 sk have "(0::rat) \<le> of_int k" by simp
    then have k0: "0 \<le> k" by simp
    have bp: "\<bar>p\<bar> \<le> 2 ^ 53" and bs: "\<bar>p + k\<bar> \<le> 2 ^ 53" using p0 k0 le by simp_all
    have dp: "d = Fin (of_int p)" unfolding d_def al by (rule fl_of_int [OF bp])
    have sum: "js_add (Fin (of_int p)) (Fin (of_int k)) = Fin (of_int (p + k))"
      using fl_of_int [OF bs] by simp
    have a: "calculateReorderPoint item = Fin (of_int (p + k))"
      unfolding rp dp sk sum by (rule round2_of_int [OF bs])
    have "parseFloat (toFixed2 (js_mul (Fin A) (Fin L))) = Fin (of_int p)"
      using round2_of_int [OF bp] dp by (simp add: d_def)
    then have b: "js_add (parseFloat (toFixed2 (js_mul (Fin A) (Fin L)))) (calculateSafetyStock item) =
        Fin (of_int (p + k))"
      using sum sk by (simp add: ss_def)
    from a b show ?thesis ..
  qed
  from 1 2 3 4 show ?thesis by blast
qed

theorem calculateReorderPoint_nonneg_inputs_witness:
  "calculateReorderPoint
     \<lparr>item_id = 1, name = ''Beef'', category = ''Meat'', unit = ''kg'', avgDailyUsage = Fin 5,
       maxDailyUsage = Fin 10, leadTime = Fin 2, currentStock = Fin 15\<rparr> = Fin 20 \<and>
   js_add (parseFloat (toFixed2 (js_mul (Fin 5) (Fin 2))))
     (calculateSafetyStock
        \<lparr>item_id = 1, name = ''Beef'', category = ''Meat'', unit = ''kg'', avgDailyUsage = Fin 5,
          maxDailyUsage = Fin 10, leadTime = Fin 2, currentStock = Fin 15\<rparr>) = Fin 20"
proof -
  let ?item = "\<lparr>item_id = 1, name = ''Beef'', category = ''Meat'', unit = ''kg'',
       avgDailyUsage = Fin 5, maxDailyUsage = Fin 10, leadTime = Fin 2, currentStock = Fin 15\<rparr>"
  have ss: "calculateSafetyStock ?item = Fin (of_int 10)"
    by (simp add: calculateSafetyStock_def js_sub_Fin whole_numbers Math_max_def)
  have h: "avgDailyUsage ?item = Fin 5" "leadTime ?item = Fin 2" "(0::rat) \<le> 5" "(0::rat) \<le> 2"
    by simp_all
  have pk: "(5::rat) * 2 = of_int 10 \<and> calculateSafetyStock ?item = Fin (of_int 10) \<and>
      (10::int) + 10 \<le> 2 ^ 53"
    using ss by simp
  from calculateReorderPoint_nonneg_inputs [OF h]
  have "\<forall>p k. (5::rat) * 2 = of_int p \<and> calculateSafetyStock ?item = Fin (of_int k) \<and> p + k \<le> 2 ^ 53 \<longrightarrow>
            calculateReorderPoint ?item = Fin (of_int (p + k)) \<and>
            js_add (parseFloat (toFixed2 (js_mul (Fin 5) (Fin 2)))) (calculateSafetyStock ?item) =
              Fin (of_int (p + k))"
    by blast
  from this [rule_format, OF pk] show ?thesis by simp
qed

text \<open>
  C3, as stated for all \<open>L\<close>, fails for a negative lead time: with \<open>A = 10\<close>, \<open>M = 5\<close>,
  \<open>L = - 2\<close> the raw difference is \<open>- 10 - (- 20) = 10\<close>, which is not clamped.
\<close>
theorem calculateSafetyStock_negative_leadTime_counterexample:
  "calculateSafetyStock
     \<lparr>item_id = 1, name = ''Beef'', category = ''Meat'', unit = ''kg'',
       avgDailyUsage = Fin 10, maxDailyUsage = Fin 5, leadTime = Fin (- 2),
       currentStock = Fin 0\<rparr> = Fin 10"
proof -
  have f: "fl 10 = Fin 10" using fl_of_int [of 10] by simp
  have g: "fl (- 10) = Fin (- 10)" "fl (- 20) = Fin (- 20)"
    using fl_of_int [of "- 10"] fl_of_int [of "- 20"] by simp_all
  have r: "parseFloat (toFixed2 (Fin 10)) = Fin 10" using round2_of_int [of 10] by simp
  show ?thesis
    by (simp add: calculateSafetyStock_def js_sub_Fin f g r Math_max_def)
qed

text \<open>
  C3, amended: for all finite \<open>A\<close>, \<open>M\<close>, \<open>L\<close> with \<open>M < A\<close> and \<open>L \<ge> 0\<close>,
  \<open>calculateSafetyStock\<close> returns 0: the raw difference is not positive and is clamped.
  The one exception is NaN, returned when both products overflow to the same infinity.
\<close>
theorem calculateSafetyStock_max_below_avg:
  assumes "avgDailyUsage item = Fin A" and "maxDailyUsage item = Fin M" and "leadTime item = Fin L"
    and "M < A" and "0 \<le> L"
  shows "calculateSafetyStock item =
           (if js_mul (Fin M) (Fin L) = js_mul (Fin A) (Fin L) \<and>
               (js_mul (Fin M) (Fin L) = PInf \<or> js_mul (Fin M) (Fin L) = NInf)
            then NaN else Fin 0)"
proof -
  define raw where "raw = js_sub (fl (M * L)) (fl (A * L))"
  have ss: "calculateSafetyStock item = Math_max (Fin 0) (parseFloat (toFixed2 raw))"
    by (simp add: calculateSafetyStock_def assms(1-3) raw_def)
  have "M * L \<le> A * L" using assms(4,5) by (simp add: mult_right_mono)
  then have le: "js_le (fl (M * L)) (fl (A * L))" by (rule fl_mono)
  show ?thesis
  proof (cases "raw = NaN")
    case True
    then have c0: "fl (M * L) = fl (A * L) \<and> (fl (M * L) = PInf \<or> fl (M * L) = NInf)"
      unfolding raw_def js_sub_eq_NaN_iff by (auto simp: fl_not_NaN)
    have c: "js_mul (Fin M) (Fin L) = js_mul (Fin A) (Fin L) \<and>
        (js_mul (Fin M) (Fin L) = PInf \<or> js_mul (Fin M) (Fin L) = NInf)"
      unfolding js_mul_Fin by (rule c0)
    have "calculateSafetyStock item = NaN"
      unfolding ss True by (simp add: toFixed2_def Math_max_def)
    then show ?thesis by (simp only: if_P [OF c])
  next
    case False
    then have n0: "\<not> (fl (M * L) = fl (A * L) \<and> (fl (M * L) = PInf \<or> fl (M * L) = NInf))"
      unfolding raw_def js_sub_eq_NaN_iff by auto
    have ninf: "\<not> (js_mul (Fin M) (Fin L) = js_mul (Fin A) (Fin L) \<and>
        (js_mul (Fin M) (Fin L) = PInf \<or> js_mul (Fin M) (Fin L) = NInf))"
      unfolding js_mul_Fin by (rule n0)
    from js_sub_nonpos [OF le] False have "js_le raw (Fin 0)" by (simp add: raw_def)
    then have "js_le (parseFloat (toFixed2 raw)) (Fin 0)" by (rule round2_nonpos)
    then have "calculateSafetyStock item = Fin 0" unfolding ss by (rule Math_max_zero_nonpos)
    then show ?thesis by (simp only: if_not_P [OF ninf])
  qed
qed

theorem calculateSafetyStock_max_below_avg_witness:
  "calculateSafetyStock
     \<lparr>item_id = 1, name = ''Beef'', category = ''Meat'', unit = ''kg'', avgDailyUsage = Fin 10,
       maxDailyUsage = Fin 5, leadTime = Fin 2, currentStock = Fin 15\<rparr> = Fin 0"
  using calculateSafetyStock_max_below_avg
    [of "\<lparr>item_id = 1, name = ''Beef'', category = ''Meat'', unit = ''kg'', avgDailyUsage = Fin 10,
       maxDailyUsage = Fin 5, leadTime = Fin 2, currentStock = Fin 15\<rparr>" 10 5 2]
  by (simp add: whole_numbers)

text \<open>
  C4: for every item the status that \<open>getStatus\<close> computes is \<open>Reorder Now\<close> if and only if
  \<open>currentStock <= reorderPoint\<close>, with the reorder point of \<open>calculateReorderPoint\<close>, and
  \<open>OK\<close> otherwise. For \<open>A = 5\<close>, \<open>M = 10\<close>, \<open>L = 2\<close> the safety stock is 10 and the reorder
  point is 20; a current stock of 15 gives \<open>Reorder Now\<close> and one of 25 gives \<open>OK\<close>.
\<close>
theorem getStatus_reorder_iff:
  "(status (getStatus item) = ''Reorder Now'' \<longleftrightarrow>
      js_le (currentStock item) (calculateReorderPoint item)) \<and>
   (status (getStatus item) = ''OK'' \<longleftrightarrow>
      \<not> js_le (currentStock item) (calculateReorderPoint item)) \<and>
   (avgDailyUsage item = Fin 5 \<and> maxDailyUsage item = Fin 10 \<and> leadTime item = Fin 2 \<longrightarrow>
      calculateSafetyStock item = Fin 10 \<and> calculateReorderPoint item = Fin 20 \<and>
      (currentStock item = Fin 15 \<longrightarrow> status (getStatus item) = ''Reorder Now'') \<and>
      (currentStock item = Fin 25 \<longrightarrow> status (getStatus item) = ''OK''))"
proof (intro conjI impI)
  show "status (getStatus item) = ''Reorder Now'' \<longleftrightarrow>
      js_le (currentStock item) (calculateReorderPoint item)"
    by (simp add: getStatus_def)
  show "status (getStatus item) = ''OK'' \<longleftrightarrow>
      \<not> js_le (currentStock item) (calculateReorderPoint item)"
    by (simp add: getStatus_def)
next
  assume ex: "avgDailyUsage item = Fin 5 \<and> maxDailyUsage item = Fin 10 \<and> leadTime item = Fin 2"
  have f10: "fl 10 = Fin 10" and f20: "fl 20 = Fin 20"
    using fl_of_int [of 10] fl_of_int [of 20] by simp_all
  have r10: "parseFloat (toFixed2 (Fin 10)) = Fin 10"
    and r20: "parseFloat (toFixed2 (Fin 20)) = Fin 20"
    using round2_of_int [of 10] round2_of_int [of 20] by simp_all
  show ss: "calculateSafetyStock item = Fin 10"
    using ex by (simp add: calculateSafetyStock_def js_sub_Fin f10 f20 r10 Math_max_def)
  show rp: "calculateReorderPoint item = Fin 20"
    using ex by (simp add: calculateReorderPoint_def ss f10 f20 r20)
  show "status (getStatus item) = ''Reorder Now''" if "currentStock item = Fin 15"
    using that by (simp add: getStatus_def rp)
  show "status (getStatus item) = ''OK''" if "currentStock item = Fin 25"
    using that by (simp add: getStatus_def rp)
qed

theorem getStatus_reorder_iff_witness:
  "calculateSafetyStock
     \<lparr>item_id = 1, name = ''Beef'', category = ''Meat'', unit = ''kg'', avgDailyUsage = Fin 5,
       maxDailyUsage = Fin 10, leadTime = Fin 2, currentStock = Fin 15\<rparr> = Fin 10 \<and>
   calculateReorderPoint
     \<lparr>item_id = 1, name = ''Beef'', category = ''Meat'', unit = ''kg'', avgDailyUsage = Fin 5,
       maxDailyUsage = Fin 10, leadTime = Fin 2, currentStock = Fin 15\<rparr> = Fin 20 \<and>
   status (getStatus
     \<lparr>item_id = 1, name = ''Beef'', category = ''Meat'', unit = ''kg'', avgDailyUsage = Fin 5,
       maxDailyUsage = Fin 10, leadTime = Fin 2, currentStock = Fin 15\<rparr>) = ''Reorder Now'' \<and>
   status (getStatus
     \<lparr>item_id = 1, name = ''Beef'', category = ''Meat'', unit = ''kg'', avgDailyUsage = Fin 5,
       maxDailyUsage = Fin 10, leadTime = Fin 2, currentStock = Fin 25\<rparr>) = ''OK''"
  using getStatus_reorder_iff
    [of "\<lparr>item_id = 1, name = ''Beef'', category = ''Meat'', unit = ''kg'', avgDailyUsage = Fin 5,
       maxDailyUsage = Fin 10, leadTime = Fin 2, currentStock = Fin 15\<rparr>"]
    getStatus_reorder_iff
    [of "\<lparr>item_id = 1, name = ''Beef'', category = ''Meat'', unit = ''kg'', avgDailyUsage = Fin 5,
       maxDailyUsage = Fin 10, leadTime = Fin 2, currentStock = Fin 25\<rparr>"]
  by simp

section \<open>Properties of the optimistic update\<close>

lemma handleUpdate_rejected: "handleUpdate items' id' e Rejected = items'"
  by (simp add: handleUpdate_def)

text \<open>
  C8 fails on a server error response: the edit of \<open>currentStock\<close> from 15 to 7 stays in the
  list when the \<open>PUT\<close> is answered with status 400, since \<open>fetch\<close> resolves and the \<open>catch\<close>
  block does not run. (After a network error the list is restored, \<open>handleUpdate_rejected\<close>.)
\<close>
theorem handleUpdate_keeps_edit_on_error_response:
  "handleUpdate
     [\<lparr>item_id = 1, name = ''Beef'', category = ''Meat'', unit = ''kg'', avgDailyUsage = Fin 5,
       maxDailyUsage = Fin 10, leadTime = Fin 2, currentStock = Fin 15\<rparr>]
     1 (Set_currentStock (Fin 7)) (Resolved 400)
   = [\<lparr>item_id = 1, name = ''Beef'', category = ''Meat'', unit = ''kg'', avgDailyUsage = Fin 5,
       maxDailyUsage = Fin 10, leadTime = Fin 2, currentStock = Fin 7\<rparr>]
   \<and> handleUpdate
     [\<lparr>item_id = 1, name = ''Beef'', category = ''Meat'', unit = ''kg'', avgDailyUsage = Fin 5,
       maxDailyUsage = Fin 10, leadTime = Fin 2, currentStock = Fin 15\<rparr>]
     1 (Set_currentStock (Fin 7)) (Resolved 400)
   \<noteq> [\<lparr>item_id = 1, name = ''Beef'', category = ''Meat'', unit = ''kg'', avgDailyUsage = Fin 5,
       maxDailyUsage = Fin 10, leadTime = Fin 2, currentStock = Fin 15\<rparr>]"
  by (simp add: handleUpdate_def optimistic_def)

end
